theory Spec2Isabelle
  imports Main "HOL-Library.Sublist"
begin

section \<open>Python values\<close>

text \<open>
  A Python \<open>str\<close> is a sequence of Unicode code points: \<open>pystr\<close> is the list of
  their numbers. \<open>ascii\<close> turns an ASCII literal into such a string. The program's
  Chinese literals are written out as code points.
  \<open>sub in s\<close> is \<^term>\<open>sublist sub s\<close>, \<open>s.endswith(t)\<close> is \<^term>\<open>suffix t s\<close> and
  \<open>s.startswith(t)\<close> is \<^term>\<open>prefix t s\<close>.
\<close>

type_synonym pystr = "nat list"

definition ascii :: "string \<Rightarrow> pystr" where
  "ascii s = map of_char s"

text \<open>The status texts of the program.\<close>

definition cn_success :: pystr where
  \<comment> \<open>U+6210 U+529F, the substring that marks a success\<close>
  "cn_success = [25104, 21151]"

definition cn_download_ok :: pystr where
  \<comment> \<open>U+4E0B U+8F7D U+6210 U+529F, returned by \<open>download_app\<close> on success\<close>
  "cn_download_ok = [19979, 36733, 25104, 21151]"

definition cn_download_failed :: pystr where
  \<comment> \<open>U+4E0B U+8F7D U+5931 U+8D25 ": ", the prefix of a failed download's status\<close>
  "cn_download_failed = [19979, 36733, 22833, 36133, 58, 32]"

definition cn_install_ok :: pystr where
  \<comment> \<open>U+5B89 U+88C5 U+6210 U+529F\<close>
  "cn_install_ok = [23433, 35013, 25104, 21151]"

definition cn_install_failed :: pystr where
  \<comment> \<open>U+5B89 U+88C5 U+5931 U+8D25 ": "\<close>
  "cn_install_failed = [23433, 35013, 22833, 36133, 58, 32]"

definition cn_not_installed :: pystr where
  \<comment> \<open>U+672A U+5B89 U+88C5, the install status of an entry that was not installed\<close>
  "cn_not_installed = [26410, 23433, 35013]"

definition cn_downloaded :: pystr where
  \<comment> \<open>U+5DF2 U+4E0B U+8F7D, the download status of a local package\<close>
  "cn_downloaded = [24050, 19979, 36733]"

definition cn_local_install :: pystr where
  \<comment> \<open>U+672C U+5730 U+5B89 U+88C5, the link of a local package with no ledger row\<close>
  "cn_local_install = [26412, 22320, 23433, 35013]"

text \<open>
  Exceptions. The handlers of the program tell two classes apart:
  \<open>subprocess.CalledProcessError\<close> and everything else that derives from
  \<open>Exception\<close>. An exception carries the text that \<open>str(e)\<close> gives.
\<close>

datatype exc_class = CalledProcessError | OtherException

datatype py_exception = PyExc exc_class pystr

fun exc_kind :: "py_exception \<Rightarrow> exc_class" where
  "exc_kind (PyExc k m) = k"

fun exc_text :: "py_exception \<Rightarrow> pystr" where
  "exc_text (PyExc k m) = m"

section \<open>The ledger\<close>

text \<open>
  One row of \<open>download.xlsx\<close>: the application's name, its download link, its download
  status and its install status. A data frame is the list of its rows, in order; the
  row labels are the positions (\<open>read_excel\<close> gives a range index). Cells are strings.
\<close>

record row =
  col_name :: pystr
  col_url :: pystr
  col_download_status :: pystr
  col_install_status :: pystr

type_synonym frame = "row list"

definition names_of :: "frame \<Rightarrow> pystr list" where
  \<comment> \<open>the name column's values\<close>
  "names_of df = map col_name df"

definition matching_index :: "frame \<Rightarrow> pystr \<Rightarrow> nat list" where
  \<comment> \<open>the index of the frame filtered by name\<close>
  "matching_index df app_name = [i \<leftarrow> [0..<length df]. col_name (df ! i) = app_name]"

definition rows_named :: "frame \<Rightarrow> pystr \<Rightarrow> frame" where
  \<comment> \<open>the frame filtered by name\<close>
  "rows_named df app_name = filter (\<lambda>r. col_name r = app_name) df"

definition set_status :: "row \<Rightarrow> pystr \<Rightarrow> pystr \<Rightarrow> row" where
  "set_status r ds ins = r\<lparr>col_download_status := ds, col_install_status := ins\<rparr>"

definition new_row :: "pystr \<Rightarrow> pystr \<Rightarrow> pystr \<Rightarrow> pystr \<Rightarrow> row" where
  "new_row app_name url ds ins =
     \<lparr>col_name = app_name, col_url = url, col_download_status = ds, col_install_status = ins\<rparr>"

definition index_error :: py_exception where
  "index_error = PyExc OtherException (ascii ''index 0 is out of bounds for axis 0 with size 0'')"

definition upsert_frame ::
  "frame \<Rightarrow> pystr \<Rightarrow> pystr \<Rightarrow> pystr \<Rightarrow> pystr \<Rightarrow> py_exception + frame" where
  \<comment> \<open>\<open>update_excel_status\<close> between reading and writing the file\<close>
  "upsert_frame df app_name url ds ins =
     (if app_name \<in> set (names_of df) then
        (case matching_index df app_name of
           [] \<Rightarrow> Inl index_error
         | index # _ \<Rightarrow> Inr (df[index := set_status (df ! index) ds ins]))
      else Inr (df @ [new_row app_name url ds ins]))"

section \<open>The ledger file\<close>

text \<open>
  The ledger is kept in a file. \<open>df.to_excel(excel_file, index=False)\<close> stores a frame
  as the table of the file, and \<open>pd.read_excel(excel_file)\<close> gives the frame that
  pandas reads from the table of the file. Reading does not undo writing: with the
  defaults of \<open>read_excel\<close> a text cell such as \<open>NA\<close>, \<open>null\<close>, \<open>None\<close> or \<open>nan\<close>
  is read as a missing value, and a column whose cells all look like numbers is read as
  numbers. What is read from a table, and whether a write fails, is therefore given by
  the environment. The frames here have text cells: a statement about a frame that was
  read says so in a hypothesis \<open>read_excel xl sheet = Inr df\<close>.
\<close>

record excel =
  excel_read :: "frame \<Rightarrow> py_exception + frame"
    \<comment> \<open>what \<open>pd.read_excel\<close> gives for a file that holds this table\<close>
  excel_write :: "frame \<Rightarrow> py_exception option"
    \<comment> \<open>what \<open>df.to_excel\<close> raises for this frame, if it does\<close>

definition file_not_found :: py_exception where
  "file_not_found = PyExc OtherException (ascii ''[Errno 2] No such file or directory'')"

definition read_excel :: "excel \<Rightarrow> frame option \<Rightarrow> py_exception + frame" where
  \<comment> \<open>\<open>pd.read_excel(excel_file)\<close>; the file is \<open>None\<close> when it does not exist\<close>
  "read_excel xl sheet =
     (case sheet of None \<Rightarrow> Inl file_not_found | Some table \<Rightarrow> excel_read xl table)"

definition to_excel :: "excel \<Rightarrow> frame \<Rightarrow> py_exception + frame option" where
  \<comment> \<open>\<open>df.to_excel(excel_file, index=False)\<close>: the file it leaves\<close>
  "to_excel xl df = (case excel_write xl df of Some e \<Rightarrow> Inl e | None \<Rightarrow> Inr (Some df))"

definition update_excel_status ::
  "excel \<Rightarrow> frame option \<Rightarrow> pystr \<Rightarrow> pystr \<Rightarrow> pystr \<Rightarrow> pystr \<Rightarrow> py_exception + frame option" where
  \<comment> \<open>one call that nothing interrupts: the file is read, the frame changed and the
     file written; the result is the file the call leaves\<close>
  "update_excel_status xl sheet app_name url ds ins =
     (case read_excel xl sheet of
        Inl e \<Rightarrow> Inl e
      | Inr df \<Rightarrow>
          (case upsert_frame df app_name url ds ins of
             Inl e \<Rightarrow> Inl e
           | Inr df' \<Rightarrow> to_excel xl df'))"

section \<open>String methods and paths\<close>

text \<open>
  \<open>str.splitlines\<close> breaks a string at line boundaries (\<open>\n\<close>, \<open>\r\<close>, \<open>\r\n\<close>,
  \<open>\v\<close>, \<open>\f\<close>, the separators U+001C to U+001E, U+0085, U+2028 and U+2029) and
  gives no empty last line. \<open>str.split\<close> with no argument and \<open>str.strip\<close> work on the
  characters for which \<open>str.isspace\<close> holds.
\<close>

definition is_linebreak :: "nat \<Rightarrow> bool" where
  "is_linebreak c = (c \<in> {10, 11, 12, 13, 28, 29, 30, 133, 8232, 8233})"

definition is_space :: "nat \<Rightarrow> bool" where
  "is_space c = ((9 \<le> c \<and> c \<le> 13) \<or> (28 \<le> c \<and> c \<le> 32) \<or> c = 133 \<or> c = 160 \<or>
     c = 5760 \<or> (8192 \<le> c \<and> c \<le> 8202) \<or> c = 8232 \<or> c = 8233 \<or> c = 8239 \<or>
     c = 8287 \<or> c = 12288)"

fun lines_from :: "pystr \<Rightarrow> pystr \<Rightarrow> pystr list" where
  \<comment> \<open>the lines of the rest of the text, \<open>cur\<close> being the line read so far\<close>
  "lines_from cur [] = (if cur = [] then [] else [cur])"
| "lines_from cur (c # cs) =
     (if c = 13 \<and> (case cs of [] \<Rightarrow> False | d # _ \<Rightarrow> d = 10) then cur # lines_from [] (tl cs)
      else if is_linebreak c then cur # lines_from [] cs
      else lines_from (cur @ [c]) cs)"

definition splitlines :: "pystr \<Rightarrow> pystr list" where
  "splitlines s = lines_from [] s"

fun tokens_from :: "pystr \<Rightarrow> pystr \<Rightarrow> pystr list" where
  \<comment> \<open>the tokens of the rest of the text, \<open>cur\<close> being the token read so far\<close>
  "tokens_from cur [] = (if cur = [] then [] else [cur])"
| "tokens_from cur (c # cs) =
     (if is_space c then (if cur = [] then tokens_from [] cs else cur # tokens_from [] cs)
      else tokens_from (cur @ [c]) cs)"

definition split :: "pystr \<Rightarrow> pystr list" where
  "split s = tokens_from [] s"

definition strip :: "pystr \<Rightarrow> pystr" where
  "strip s = rev (dropWhile is_space (rev (dropWhile is_space s)))"

definition first_token :: "pystr \<Rightarrow> pystr" where
  \<comment> \<open>the first whitespace-delimited token, said without \<open>split\<close>: skip the leading
     whitespace, then read up to the next whitespace\<close>
  "first_token s = takeWhile (\<lambda>c. \<not> is_space c) (dropWhile is_space s)"

definition truthy :: "pystr option \<Rightarrow> bool" where
  \<comment> \<open>the truth value of a value that is \<open>None\<close> or a string\<close>
  "truthy v = (case v of None \<Rightarrow> False | Some s \<Rightarrow> s \<noteq> [])"

definition os_path_join :: "pystr \<Rightarrow> pystr \<Rightarrow> pystr" where
  \<comment> \<open>\<open>posixpath.join\<close> of two components\<close>
  "os_path_join a b =
     (if prefix (ascii ''/'') b \<or> a = [] then b
      else if suffix (ascii ''/'') a then a @ b
      else a @ ascii ''/'' @ b)"

fun rfind :: "pystr \<Rightarrow> nat \<Rightarrow> int" where
  \<comment> \<open>\<open>s.rfind(c)\<close> for one character: the last position of \<open>c\<close>, or -1\<close>
  "rfind [] c = -1"
| "rfind (x # xs) c = (let r = rfind xs c in if r \<ge> 0 then r + 1 else if x = c then 0 else -1)"

definition os_path_splitext :: "pystr \<Rightarrow> pystr \<times> pystr" where
  \<comment> \<open>\<open>posixpath.splitext\<close>: the extension starts at the last dot of the last
     component, unless only dots come before it in that component\<close>
  "os_path_splitext p =
     (let sepIndex = rfind p 47; dotIndex = rfind p 46 in
      if dotIndex > sepIndex \<and>
         list_ex (\<lambda>c. c \<noteq> 46) (take (nat (dotIndex - (sepIndex + 1))) (drop (nat (sepIndex + 1)) p))
      then (take (nat dotIndex) p, drop (nat dotIndex) p)
      else (p, []))"

section \<open>The outside world\<close>

text \<open>
  What the program does not compute itself is given by its environment: the HTTP
  transport, the file system's failures, the bridge tool \<open>adb\<close> and three builtins.
  \<open>io\<close> is the behaviour one call sees. Bytes are \<open>char\<close>s.
\<close>

type_synonym bytes = string

record response =
  status_error :: "py_exception option"
    \<comment> \<open>what \<open>raise_for_status()\<close> raises, if it does\<close>
  content_length :: "pystr option"
    \<comment> \<open>the \<open>content-length\<close> header, if present\<close>
  body_chunks :: "bytes list"
    \<comment> \<open>the chunks \<open>iter_content\<close> yields\<close>
  body_error :: "py_exception option"
    \<comment> \<open>what \<open>iter_content\<close> raises after these chunks, if it does\<close>

record io =
  http_get :: "pystr \<Rightarrow> py_exception + response"
    \<comment> \<open>\<open>requests.get(url, stream=True, timeout=30)\<close>\<close>
  int_of :: "pystr \<Rightarrow> py_exception + int"
    \<comment> \<open>the builtin \<open>int\<close> on a string\<close>
  open_wb :: "pystr \<Rightarrow> py_exception option"
    \<comment> \<open>what \<open>open(path, 'wb')\<close> raises, if it does\<close>
  write_fails :: "nat \<Rightarrow> py_exception option"
    \<comment> \<open>what the k-th \<open>write\<close> to the opened file raises, if it does\<close>
  proc_run :: "pystr list \<Rightarrow> py_exception + int"
    \<comment> \<open>\<open>subprocess.run\<close> of a command: it cannot be started, or it exits with a code\<close>
  cpe_text :: "pystr list \<Rightarrow> int \<Rightarrow> pystr"
    \<comment> \<open>\<open>str\<close> of the \<open>CalledProcessError\<close> for a command and its exit code\<close>
  adb_devices :: "py_exception + bytes"
    \<comment> \<open>\<open>subprocess.run(["adb", "devices"], stdout=PIPE)\<close>: it raises, or its output\<close>
  decode :: "bytes \<Rightarrow> py_exception + pystr"
    \<comment> \<open>\<open>bytes.decode()\<close>\<close>
  remove_fails :: "pystr \<Rightarrow> py_exception option"
    \<comment> \<open>what \<open>os.remove(path)\<close> raises on an existing file, if it does\<close>
  lower :: "pystr \<Rightarrow> pystr"
    \<comment> \<open>the builtin \<open>str.lower\<close>\<close>

type_synonym filesys = "pystr \<rightharpoonup> bytes"

section \<open>The device locator\<close>

definition online_lines :: "pystr \<Rightarrow> pystr list" where
  \<comment> \<open>the lines of the output that end with \<open>device\<close>\<close>
  "online_lines text = filter (\<lambda>line. suffix (ascii ''device'') line) (splitlines text)"

definition check_device_online_try :: "io \<Rightarrow> py_exception + pystr option" where
  \<comment> \<open>the body of the \<open>try\<close>\<close>
  "check_device_online_try env =
     (case adb_devices env of
        Inl e \<Rightarrow> Inl e
      | Inr stdout \<Rightarrow>
          (case decode env stdout of
             Inl e \<Rightarrow> Inl e
           | Inr text \<Rightarrow>
               (let devices = online_lines text in
                if length devices = 0 then Inr None
                else if length devices > 1 then Inr None
                else (case split (devices ! 0) of
                        [] \<Rightarrow> Inl index_error
                      | device_id # _ \<Rightarrow> Inr (Some device_id)))))"

definition check_device_online :: "io \<Rightarrow> py_exception + pystr option" where
  \<comment> \<open>\<open>except Exception\<close> returns \<open>None\<close>\<close>
  "check_device_online env =
     (case check_device_online_try env of Inl e \<Rightarrow> Inr None | Inr r \<Rightarrow> Inr r)"

section \<open>The fetcher\<close>

fun write_chunks ::
  "(nat \<Rightarrow> py_exception option) \<Rightarrow> pystr \<Rightarrow> nat \<Rightarrow> bytes list \<Rightarrow> filesys \<Rightarrow>
     py_exception option \<times> filesys" where
  \<comment> \<open>the loop over \<open>iter_content\<close>: each chunk is appended to the open file\<close>
  "write_chunks werr path k [] fs = (None, fs)"
| "write_chunks werr path k (data # rest) fs =
     (case werr k of
        Some e \<Rightarrow> (Some e, fs)
      | None \<Rightarrow>
          write_chunks werr path (Suc k) rest
            (fs(path \<mapsto> (case fs path of None \<Rightarrow> data | Some old \<Rightarrow> old @ data))))"

definition apk_file_path :: "pystr \<Rightarrow> pystr \<Rightarrow> pystr" where
  \<comment> \<open>\<open>os.path.join(download_dir, f"{app_name}.apk")\<close>\<close>
  "apk_file_path download_dir app_name = os_path_join download_dir (app_name @ ascii ''.apk'')"

definition total_size_of :: "io \<Rightarrow> response \<Rightarrow> py_exception + int" where
  \<comment> \<open>\<open>int(response.headers.get('content-length', 0))\<close>\<close>
  "total_size_of env response =
     (case content_length response of None \<Rightarrow> Inr 0 | Some v \<Rightarrow> int_of env v)"

definition download_app_try ::
  "io \<Rightarrow> filesys \<Rightarrow> pystr \<Rightarrow> pystr \<Rightarrow> pystr \<Rightarrow> bool \<Rightarrow> (py_exception + pystr) \<times> filesys" where
  \<comment> \<open>the body of the \<open>try\<close>: the path written, or the exception raised; the progress
     bar of \<open>show_progress\<close> is console output, and both branches write the same chunks\<close>
  "download_app_try env fs app_name url download_dir show_progress =
     (let file_path = apk_file_path download_dir app_name in
      case http_get env url of
        Inl e \<Rightarrow> (Inl e, fs)
      | Inr response \<Rightarrow>
          (case status_error response of
             Some e \<Rightarrow> (Inl e, fs)
           | None \<Rightarrow>
               (case total_size_of env response of
                  Inl e \<Rightarrow> (Inl e, fs)
                | Inr total_size \<Rightarrow>
                    (case open_wb env file_path of
                       Some e \<Rightarrow> (Inl e, fs)
                     | None \<Rightarrow>
                         (case write_chunks (write_fails env) file_path 0 (body_chunks response)
                                 (fs(file_path \<mapsto> [])) of
                            (Some e, fs') \<Rightarrow> (Inl e, fs')
                          | (None, fs') \<Rightarrow>
                              (case body_error response of
                                 Some e \<Rightarrow> (Inl e, fs')
                               | None \<Rightarrow> (Inr file_path, fs')))))))"

definition download_app ::
  "io \<Rightarrow> filesys \<Rightarrow> pystr \<Rightarrow> pystr \<Rightarrow> pystr \<Rightarrow> bool \<Rightarrow>
     (py_exception + pystr option \<times> pystr) \<times> filesys" where
  \<comment> \<open>\<open>except Exception as e\<close> turns the exception into a status\<close>
  "download_app env fs app_name url download_dir show_progress =
     (case download_app_try env fs app_name url download_dir show_progress of
        (Inl e, fs') \<Rightarrow> (Inr (None, cn_download_failed @ exc_text e), fs')
      | (Inr file_path, fs') \<Rightarrow> (Inr (Some file_path, cn_download_ok), fs'))"

section \<open>The installer\<close>

definition install_command :: "pystr \<Rightarrow> pystr \<Rightarrow> pystr list" where
  "install_command device_id apk_path =
     [ascii ''adb'', ascii ''-s'', device_id, ascii ''install'', apk_path]"

definition run_checked :: "io \<Rightarrow> pystr list \<Rightarrow> py_exception + unit" where
  \<comment> \<open>\<open>subprocess.run(cmd, check=True)\<close>: a non-zero exit raises \<open>CalledProcessError\<close>\<close>
  "run_checked env cmd =
     (case proc_run env cmd of
        Inl e \<Rightarrow> Inl e
      | Inr returncode \<Rightarrow>
          if returncode \<noteq> 0 then Inl (PyExc CalledProcessError (cpe_text env cmd returncode))
          else Inr ())"

definition install_app :: "io \<Rightarrow> pystr \<Rightarrow> pystr \<Rightarrow> bool \<Rightarrow> py_exception + pystr" where
  \<comment> \<open>the handler is \<open>except subprocess.CalledProcessError\<close>: any other exception goes on\<close>
  "install_app env device_id apk_path show_progress =
     (case run_checked env (install_command device_id apk_path) of
        Inr _ \<Rightarrow> Inr cn_install_ok
      | Inl e \<Rightarrow>
          if exc_kind e = CalledProcessError then Inr (cn_install_failed @ exc_text e)
          else Inl e)"

section \<open>Tasks, the shared state and the worker pool\<close>

text \<open>
  The calls a run makes to its collaborators, in the order they are made.
\<close>

datatype event =
    DownloadCall pystr pystr pystr
    \<comment> \<open>\<open>download_app(app_name, url, download_dir)\<close>\<close>
  | InstallCall pystr pystr
    \<comment> \<open>\<open>install_app(device_id, apk_path)\<close>\<close>
  | UpsertCall pystr pystr pystr pystr
    \<comment> \<open>\<open>update_excel_status(excel_file, app_name, url, download_status, install_status)\<close>\<close>
  | DevicesCall
    \<comment> \<open>\<open>adb devices\<close>\<close>
  | RemoveCall pystr
    \<comment> \<open>\<open>os.remove(path)\<close>\<close>

fun locates_or_installs :: "event \<Rightarrow> bool" where
  \<comment> \<open>the calls that need the bridge tool: listing the devices and installing\<close>
  "locates_or_installs DevicesCall = True"
| "locates_or_installs (InstallCall device_id path) = True"
| "locates_or_installs (DownloadCall app_name url download_dir) = False"
| "locates_or_installs (UpsertCall app_name url ds ins) = False"
| "locates_or_installs (RemoveCall path) = False"

text \<open>
  What the tasks of one batch share: the counters of the enclosing function (its
  \<open>nonlocal\<close> variables), the package files, the table that the ledger file at
  \<open>excel_file\<close> holds (\<open>None\<close> when the file does not exist) and the calls made so far. Package files end in
  \<open>.apk\<close> and the ledger in \<open>.xlsx\<close>, so they are kept apart.
\<close>

record shared =
  download_success :: nat
  download_failure :: nat
  total_installs :: nat
  install_success :: nat
  install_failure :: nat
  files :: filesys
  ledger :: "frame option"
  calls :: "event list"

text \<open>
  The variables of one task: those of \<open>process_app\<close> or \<open>install_apk\<close>, the operand an
  augmented assignment has read and not yet written back (\<open>loaded\<close>), the frame
  \<open>update_excel_status\<close> has read and not yet saved (\<open>df_read\<close>), and the exception that
  ended the task, if one did.
\<close>

record local =
  apk_path :: "pystr option"
  download_status :: pystr
  install_status :: pystr
  link :: pystr
  loaded :: nat
  df_read :: frame
  raised :: "py_exception option"

definition init_local :: local where
  "init_local =
     \<lparr>apk_path = None, download_status = [], install_status = [], link = [], loaded = 0,
      df_read = [], raised = None\<rparr>"

text \<open>
  A task is a list of steps. A step runs without interruption; between two steps of a
  task the pool may run steps of other tasks. Once a task has raised, its remaining
  steps do nothing.
\<close>

type_synonym step = "local \<times> shared \<Rightarrow> local \<times> shared"

definition guarded :: "step \<Rightarrow> step" where
  "guarded f = (\<lambda>(l, s). if raised l = None then f (l, s) else (l, s))"

datatype counter = DownloadSuccess | DownloadFailure | TotalInstalls | InstallSuccess | InstallFailure

fun get_counter :: "counter \<Rightarrow> shared \<Rightarrow> nat" where
  "get_counter DownloadSuccess s = download_success s"
| "get_counter DownloadFailure s = download_failure s"
| "get_counter TotalInstalls s = total_installs s"
| "get_counter InstallSuccess s = install_success s"
| "get_counter InstallFailure s = install_failure s"

fun set_counter :: "counter \<Rightarrow> nat \<Rightarrow> shared \<Rightarrow> shared" where
  "set_counter DownloadSuccess n s = s\<lparr>download_success := n\<rparr>"
| "set_counter DownloadFailure n s = s\<lparr>download_failure := n\<rparr>"
| "set_counter TotalInstalls n s = s\<lparr>total_installs := n\<rparr>"
| "set_counter InstallSuccess n s = s\<lparr>install_success := n\<rparr>"
| "set_counter InstallFailure n s = s\<lparr>install_failure := n\<rparr>"

definition load_counter :: "(local \<Rightarrow> counter option) \<Rightarrow> step" where
  "load_counter pick =
     guarded (\<lambda>(l, s). case pick l of None \<Rightarrow> (l, s) | Some c \<Rightarrow> (l\<lparr>loaded := get_counter c s\<rparr>, s))"

definition store_counter :: "(local \<Rightarrow> counter option) \<Rightarrow> step" where
  "store_counter pick =
     guarded (\<lambda>(l, s). case pick l of None \<Rightarrow> (l, s) | Some c \<Rightarrow> (l, set_counter c (loaded l + 1) s))"

definition increment :: "(local \<Rightarrow> counter option) \<Rightarrow> step list" where
  \<comment> \<open>\<open>counter += 1\<close> on a \<open>nonlocal\<close> variable: the value is read, then one more is
     written; no lock is held in between\<close>
  "increment pick = [load_counter pick, store_counter pick]"

definition download_counter :: "local \<Rightarrow> counter option" where
  \<comment> \<open>\<open>if "..." in download_status: download_success += 1 else: download_failure += 1\<close>\<close>
  "download_counter l =
     Some (if sublist cn_success (download_status l) then DownloadSuccess else DownloadFailure)"

definition install_counter :: "local \<Rightarrow> counter option" where
  "install_counter l =
     Some (if sublist cn_success (install_status l) then InstallSuccess else InstallFailure)"

definition when_downloaded :: "(local \<Rightarrow> counter option) \<Rightarrow> local \<Rightarrow> counter option" where
  \<comment> \<open>under \<open>if apk_path:\<close>\<close>
  "when_downloaded pick l = (if truthy (apk_path l) then pick l else None)"

definition log_call :: "event \<Rightarrow> shared \<Rightarrow> shared" where
  "log_call ev s = s\<lparr>calls := calls s @ [ev]\<rparr>"

definition bridge_calls :: "shared \<Rightarrow> event list" where
  \<comment> \<open>the calls made so far that need the bridge tool\<close>
  "bridge_calls s = filter locates_or_installs (calls s)"

definition update_excel_status_steps ::
  "excel \<Rightarrow> pystr \<Rightarrow> (local \<Rightarrow> pystr) \<Rightarrow> (local \<Rightarrow> pystr) \<Rightarrow> (local \<Rightarrow> pystr) \<Rightarrow> step list" where
  \<comment> \<open>\<open>update_excel_status\<close> inside a task: the file is read whole in one step, and in
     the next the frame is changed by \<open>upsert_frame\<close> and the file written whole; the
     arguments that are variables of the task are read from it at the call\<close>
  "update_excel_status_steps xl app_name url ds ins =
     [guarded (\<lambda>(l, s).
        case read_excel xl (ledger s) of
          Inl e \<Rightarrow> (l\<lparr>raised := Some e\<rparr>,
                    log_call (UpsertCall app_name (url l) (ds l) (ins l)) s)
        | Inr df \<Rightarrow> (l\<lparr>df_read := df\<rparr>, log_call (UpsertCall app_name (url l) (ds l) (ins l)) s)),
      guarded (\<lambda>(l, s).
        case upsert_frame (df_read l) app_name (url l) (ds l) (ins l) of
          Inl e \<Rightarrow> (l\<lparr>raised := Some e\<rparr>, s)
        | Inr df' \<Rightarrow>
            (case to_excel xl df' of
               Inl e \<Rightarrow> (l\<lparr>raised := Some e\<rparr>, s)
             | Inr sheet \<Rightarrow> (l, s\<lparr>ledger := sheet\<rparr>)))]"

definition download_step :: "io \<Rightarrow> pystr \<Rightarrow> pystr \<Rightarrow> pystr \<Rightarrow> step" where
  \<comment> \<open>\<open>apk_path, download_status = download_app(app_name, url, download_dir, show_progress=True)\<close>\<close>
  "download_step env app_name url download_dir =
     guarded (\<lambda>(l, s).
       case download_app env (files s) app_name url download_dir True of
         (Inl e, fs) \<Rightarrow>
           (l\<lparr>raised := Some e\<rparr>, log_call (DownloadCall app_name url download_dir) (s\<lparr>files := fs\<rparr>))
       | (Inr (p, st), fs) \<Rightarrow>
           (l\<lparr>apk_path := p, download_status := st\<rparr>,
            log_call (DownloadCall app_name url download_dir) (s\<lparr>files := fs\<rparr>)))"

definition install_step :: "io \<Rightarrow> pystr \<Rightarrow> pystr \<Rightarrow> step" where
  \<comment> \<open>\<open>install_status = install_app(device_id, apk_path, show_progress=True)\<close>\<close>
  "install_step env device_id path =
     guarded (\<lambda>(l, s).
       case install_app env device_id path True of
         Inl e \<Rightarrow> (l\<lparr>raised := Some e\<rparr>, log_call (InstallCall device_id path) s)
       | Inr st \<Rightarrow> (l\<lparr>install_status := st\<rparr>, log_call (InstallCall device_id path) s))"

definition install_if_downloaded :: "io \<Rightarrow> pystr \<Rightarrow> step" where
  \<comment> \<open>\<open>install_status = "..."\<close> (not installed), then \<open>if apk_path:\<close> the install\<close>
  "install_if_downloaded env device_id =
     guarded (\<lambda>(l, s).
       case apk_path l of
         None \<Rightarrow> (l\<lparr>install_status := cn_not_installed\<rparr>, s)
       | Some p \<Rightarrow>
           if p = [] then (l\<lparr>install_status := cn_not_installed\<rparr>, s)
           else install_step env device_id p (l\<lparr>install_status := cn_not_installed\<rparr>, s))"

definition process_app :: "excel \<Rightarrow> io \<Rightarrow> pystr \<Rightarrow> pystr \<Rightarrow> nat \<Rightarrow> row \<Rightarrow> step list" where
  \<comment> \<open>\<open>process_app\<close> of \<open>download_and_install_apps\<close>\<close>
  "process_app xl env device_id download_dir index r =
     (let app_name = col_name r; url = col_url r in
      [download_step env app_name url download_dir] @
      increment download_counter @
      [install_if_downloaded env device_id] @
      increment (when_downloaded (\<lambda>l. Some TotalInstalls)) @
      increment (when_downloaded install_counter) @
      update_excel_status_steps xl app_name (\<lambda>l. url) download_status install_status)"

definition process_app_download :: "excel \<Rightarrow> io \<Rightarrow> pystr \<Rightarrow> nat \<Rightarrow> row \<Rightarrow> step list" where
  \<comment> \<open>\<open>process_app\<close> of \<open>download_apps\<close>\<close>
  "process_app_download xl env download_dir index r =
     (let app_name = col_name r; url = col_url r in
      [download_step env app_name url download_dir] @
      increment download_counter @
      update_excel_status_steps xl app_name (\<lambda>l. url) download_status (\<lambda>l. cn_not_installed))"

definition lookup_url :: "frame \<Rightarrow> pystr \<Rightarrow> py_exception + pystr" where
  \<comment> \<open>the link of the first row of that name if the name is in the frame, else the
     marker of a local install\<close>
  "lookup_url df app_name =
     (if app_name \<in> set (names_of df) then
        (case rows_named df app_name of [] \<Rightarrow> Inl index_error | r # _ \<Rightarrow> Inr (col_url r))
      else Inr cn_local_install)"

definition lookup_step :: "frame \<Rightarrow> pystr \<Rightarrow> step" where
  "lookup_step df app_name =
     guarded (\<lambda>(l, s).
       case lookup_url df app_name of
         Inl e \<Rightarrow> (l\<lparr>raised := Some e\<rparr>, s)
       | Inr u \<Rightarrow> (l\<lparr>link := u\<rparr>, s))"

definition install_apk :: "excel \<Rightarrow> io \<Rightarrow> pystr \<Rightarrow> pystr \<Rightarrow> frame \<Rightarrow> pystr \<Rightarrow> step list" where
  \<comment> \<open>\<open>install_apk\<close> of \<open>install_local_apks\<close>; \<open>df\<close> is the frame that function read
     before the tasks started\<close>
  "install_apk xl env device_id apk_dir df apk_file =
     (let path = os_path_join apk_dir apk_file;
          app_name = fst (os_path_splitext apk_file) in
      [install_step env device_id path, lookup_step df app_name] @
      update_excel_status_steps xl app_name link (\<lambda>l. cn_downloaded) install_status @
      increment install_counter)"

text \<open>
  Running tasks. In the sequential mode each task runs to its end before the next
  starts, and the first exception ends the loop. In the parallel mode the pool has five
  workers that take the tasks in the order of submission; the schedule names, step by
  step, the task that runs next. An entry that names a task that cannot run is skipped,
  and when the schedule is used up the tasks left are finished in order, so every
  schedule gives a complete run and every complete run is given by a schedule. The loop
  over \<open>future.result()\<close> then raises the exception of the first task that raised.
\<close>

fun run_steps :: "step list \<Rightarrow> local \<times> shared \<Rightarrow> local \<times> shared" where
  "run_steps [] st = st"
| "run_steps (f # fs) st = run_steps fs (f st)"


fun run_sequential :: "step list list \<Rightarrow> shared \<Rightarrow> py_exception option \<times> shared" where
  "run_sequential [] s = (None, s)"
| "run_sequential (steps # rest) s =
     (case run_steps steps (init_local, s) of
        (l, s') \<Rightarrow> (case raised l of Some e \<Rightarrow> (Some e, s') | None \<Rightarrow> run_sequential rest s'))"

record task =
  started :: bool
  locals :: local
  todo :: "step list"

definition new_task :: "step list \<Rightarrow> task" where
  "new_task steps = \<lparr>started = False, locals = init_local, todo = steps\<rparr>"

definition max_workers :: nat where
  "max_workers = 5"

definition running :: "task \<Rightarrow> bool" where
  "running t = (started t \<and> todo t \<noteq> [])"

definition runnable :: "task list \<Rightarrow> nat \<Rightarrow> bool" where
  "runnable ts i =
     (i < length ts \<and> todo (ts ! i) \<noteq> [] \<and>
      (started (ts ! i) \<or>
       (list_all started (take i ts) \<and> length (filter running ts) < max_workers)))"

definition exec_head :: "task \<Rightarrow> shared \<Rightarrow> task \<times> shared" where
  "exec_head t s =
     (case todo t of
        [] \<Rightarrow> (t, s)
      | f # fs \<Rightarrow> (case f (locals t, s) of (l', s') \<Rightarrow> (t\<lparr>started := True, locals := l', todo := fs\<rparr>, s')))"

fun drain :: "task list \<Rightarrow> shared \<Rightarrow> task list \<times> shared" where
  "drain [] s = ([], s)"
| "drain (t # ts) s =
     (case run_steps (todo t) (locals t, s) of
        (l', s') \<Rightarrow>
          (case drain ts s' of
             (ts', s'') \<Rightarrow> (t\<lparr>started := True, locals := l', todo := []\<rparr> # ts', s'')))"

fun run_pool :: "nat list \<Rightarrow> task list \<Rightarrow> shared \<Rightarrow> task list \<times> shared" where
  "run_pool [] ts s = drain ts s"
| "run_pool (i # sched) ts s =
     (if runnable ts i then
        (case exec_head (ts ! i) s of (t', s') \<Rightarrow> run_pool sched (ts[i := t']) s')
      else run_pool sched ts s)"

definition first_raised :: "task list \<Rightarrow> py_exception option" where
  "first_raised ts = (case List.map_filter (\<lambda>t. raised (locals t)) ts of [] \<Rightarrow> None | e # _ \<Rightarrow> Some e)"

definition run_parallel :: "nat list \<Rightarrow> step list list \<Rightarrow> shared \<Rightarrow> py_exception option \<times> shared" where
  "run_parallel sched tasks s =
     (case run_pool sched (map new_task tasks) s of (ts, s') \<Rightarrow> (first_raised ts, s'))"

definition run_tasks ::
  "bool \<Rightarrow> nat list \<Rightarrow> step list list \<Rightarrow> shared \<Rightarrow> py_exception option \<times> shared" where
  "run_tasks in_parallel sched tasks s =
     (if in_parallel then run_parallel sched tasks s else run_sequential tasks s)"

section \<open>The workflows\<close>

text \<open>
  A workflow takes the behaviour of the ledger file, the environment each task sees (by
  the task's index), the schedule of the pool, its arguments and the state; it gives
  the state it leaves and either the exception that escaped or the summary lines it
  printed (none when it stopped before the batch).
\<close>

datatype report =
    DownloadReport nat nat nat
    \<comment> \<open>downloads: successes, failures, total\<close>
  | InstallReport nat nat nat
    \<comment> \<open>installs: successes, failures, total\<close>

definition reset_counters :: "shared \<Rightarrow> shared" where
  "reset_counters s =
     s\<lparr>download_success := 0, download_failure := 0, total_installs := 0,
       install_success := 0, install_failure := 0\<rparr>"

definition download_and_install_apps ::
  "excel \<Rightarrow> (nat \<Rightarrow> io) \<Rightarrow> nat list \<Rightarrow> pystr \<Rightarrow> pystr \<Rightarrow> bool \<Rightarrow> shared \<Rightarrow>
     (py_exception + report list) \<times> shared" where
  "download_and_install_apps xl envs sched device_id download_dir in_parallel s0 =
     (if ledger s0 = None then (Inr [], s0)
      else
        (case read_excel xl (ledger s0) of
           Inl e \<Rightarrow> (Inl e, s0)
         | Inr df \<Rightarrow>
             (let total_downloads = length df;
                  tasks = map (\<lambda>(index, r). process_app xl (envs index) device_id download_dir index r)
                            (enumerate 0 df)
              in case run_tasks in_parallel sched tasks (reset_counters s0) of
                   (Some e, s') \<Rightarrow> (Inl e, s')
                 | (None, s') \<Rightarrow>
                     (Inr [DownloadReport (download_success s') (download_failure s') total_downloads,
                           InstallReport (install_success s') (install_failure s') (total_installs s')],
                      s'))))"

definition download_apps ::
  "excel \<Rightarrow> (nat \<Rightarrow> io) \<Rightarrow> nat list \<Rightarrow> pystr option \<Rightarrow> pystr \<Rightarrow> bool \<Rightarrow> shared \<Rightarrow>
     (py_exception + report list) \<times> shared" where
  "download_apps xl envs sched device_id download_dir in_parallel s0 =
     (if ledger s0 = None then (Inr [], s0)
      else
        (case read_excel xl (ledger s0) of
           Inl e \<Rightarrow> (Inl e, s0)
         | Inr df \<Rightarrow>
             (let total_downloads = length df;
                  tasks = map (\<lambda>(index, r). process_app_download xl (envs index) download_dir index r)
                            (enumerate 0 df)
              in case run_tasks in_parallel sched tasks (reset_counters s0) of
                   (Some e, s') \<Rightarrow> (Inl e, s')
                 | (None, s') \<Rightarrow>
                     (Inr [DownloadReport (download_success s') (download_failure s') total_downloads],
                      s'))))"

definition create_if_missing :: "excel \<Rightarrow> shared \<Rightarrow> py_exception + shared" where
  \<comment> \<open>\<open>if not os.path.exists(excel_file)\<close>: a frame with the four columns and no row is
     written\<close>
  "create_if_missing xl s =
     (if ledger s = None then
        (case to_excel xl [] of Inl e \<Rightarrow> Inl e | Inr sheet \<Rightarrow> Inr (s\<lparr>ledger := sheet\<rparr>))
      else Inr s)"

definition install_local_apks ::
  "excel \<Rightarrow> (nat \<Rightarrow> io) \<Rightarrow> nat list \<Rightarrow> pystr \<Rightarrow> pystr \<Rightarrow> pystr list \<Rightarrow> bool \<Rightarrow> shared \<Rightarrow>
     (py_exception + report list) \<times> shared" where
  \<comment> \<open>\<open>listing\<close> is what \<open>os.listdir(apk_dir)\<close> gives\<close>
  "install_local_apks xl envs sched device_id apk_dir listing in_parallel s0 =
     (case create_if_missing xl s0 of
        Inl e \<Rightarrow> (Inl e, s0)
      | Inr s1 \<Rightarrow>
          (let apk_files = filter (\<lambda>f. suffix (ascii ''.apk'') f) listing
           in if apk_files = [] then (Inr [], s1)
              else
                (case read_excel xl (ledger s1) of
                   Inl e \<Rightarrow> (Inl e, s1)
                 | Inr df \<Rightarrow>
                     (let total = length apk_files;
                          tasks = map (\<lambda>(index, apk_file).
                                         install_apk xl (envs index) device_id apk_dir df apk_file)
                                    (enumerate 0 apk_files)
                      in case run_tasks in_parallel sched tasks (reset_counters s1) of
                           (Some e, s') \<Rightarrow> (Inl e, s')
                         | (None, s') \<Rightarrow>
                             (Inr [InstallReport (install_success s') (install_failure s') total],
                              s')))))"

section \<open>Deleting the packages\<close>

definition os_remove :: "io \<Rightarrow> filesys \<Rightarrow> pystr \<Rightarrow> py_exception + filesys" where
  "os_remove env fs path =
     (case fs path of
        None \<Rightarrow> Inl file_not_found
      | Some _ \<Rightarrow> (case remove_fails env path of Some e \<Rightarrow> Inl e | None \<Rightarrow> Inr (fs(path := None))))"

fun remove_each :: "io \<Rightarrow> pystr \<Rightarrow> pystr list \<Rightarrow> shared \<Rightarrow> shared" where
  \<comment> \<open>the loop over \<open>apk_files\<close>: an exception of \<open>os.remove\<close> is caught and the loop goes on\<close>
  "remove_each env current_dir [] s = s"
| "remove_each env current_dir (apk # rest) s =
     (let path = os_path_join current_dir apk;
          s1 = log_call (RemoveCall path) s
      in case os_remove env (files s) path of
           Inl e \<Rightarrow> remove_each env current_dir rest s1
         | Inr fs' \<Rightarrow> remove_each env current_dir rest (s1\<lparr>files := fs'\<rparr>))"

definition delete_all_apks :: "io \<Rightarrow> pystr \<Rightarrow> pystr list \<Rightarrow> pystr \<Rightarrow> shared \<Rightarrow> shared" where
  \<comment> \<open>\<open>listing\<close> is what \<open>os.listdir(current_dir)\<close> gives, \<open>typed\<close> the line the operator
     enters at the prompt (read only when there are packages)\<close>
  "delete_all_apks env current_dir listing typed s =
     (let apk_files = filter (\<lambda>f. suffix (ascii ''.apk'') f) listing in
      if apk_files = [] then s
      else
        (let confirmation = lower env (strip typed) in
         if confirmation = ascii ''y'' then remove_each env current_dir apk_files s
         else if confirmation = ascii ''n'' then s
         else s))"

section \<open>The menu\<close>

text \<open>
  One pass of the loop of \<open>main\<close> for an entry other than \<open>q\<close>. \<open>entered\<close> is the line
  read at the menu, \<open>current_dir\<close> is \<open>os.getcwd()\<close>, whose \<open>download.xlsx\<close> is the
  ledger file, \<open>listing\<close> is what \<open>os.listdir(current_dir)\<close> gives and \<open>typed\<close> is the
  line read by \<open>delete_all_apks\<close>. The workflows are called with \<open>parallel=True\<close>.
\<close>

definition locate_device :: "io \<Rightarrow> shared \<Rightarrow> pystr option \<times> shared" where
  \<comment> \<open>\<open>device_id = check_device_online()\<close>\<close>
  "locate_device env s =
     (case check_device_online env of Inl e \<Rightarrow> None | Inr device_id \<Rightarrow> device_id,
      log_call DevicesCall s)"

definition menu_choice ::
  "excel \<Rightarrow> io \<Rightarrow> (nat \<Rightarrow> io) \<Rightarrow> nat list \<Rightarrow> pystr \<Rightarrow> pystr \<Rightarrow> pystr list \<Rightarrow> pystr \<Rightarrow> shared \<Rightarrow>
     (py_exception + report list) \<times> shared" where
  "menu_choice xl env envs sched entered current_dir listing typed s =
     (let choice = lower env (strip entered) in
      if choice = ascii ''1'' then download_apps xl envs sched None current_dir True s
      else if choice = ascii ''2'' then
        (case locate_device env s of
           (device_id, s1) \<Rightarrow>
             (case device_id of
                None \<Rightarrow> (Inr [], s1)
              | Some d \<Rightarrow>
                  if d = [] then (Inr [], s1)
                  else install_local_apks xl envs sched d current_dir listing True s1))
      else if choice = ascii ''3'' then
        (case locate_device env s of
           (device_id, s1) \<Rightarrow>
             (case device_id of
                None \<Rightarrow> (Inr [], s1)
              | Some d \<Rightarrow>
                  if d = [] then (Inr [], s1)
                  else download_and_install_apps xl envs sched d current_dir True s1))
      else if choice = ascii ''4'' then (Inr [], delete_all_apks env current_dir listing typed s)
      else (Inr [], s))"

section \<open>Example data\<close>

text \<open>A ledger row with empty status cells, as the operator fills it in.\<close>

definition demo_row :: "string \<Rightarrow> string \<Rightarrow> row" where
  "demo_row n u = new_row (ascii n) (ascii u) [] []"

text \<open>
  A ledger row whose four cells hold text, and a ledger file that never fails and gives
  back the table it holds. That is what pandas does on a table of such rows: no cell is
  one of the texts \<open>read_excel\<close> takes for a missing value, and no column looks like
  numbers.
\<close>

definition pending_row :: "string \<Rightarrow> string \<Rightarrow> row" where
  "pending_row n u = new_row (ascii n) (ascii u) (ascii ''pending'') (ascii ''pending'')"

definition demo_excel :: excel where
  "demo_excel = \<lparr>excel_read = (\<lambda>table. Inr table), excel_write = (\<lambda>df. None)\<rparr>"

text \<open>
  An environment for examples: the network refuses every connection, the file system
  and \<open>adb\<close> never fail, one device is attached, bytes decode as Latin-1 and
  \<open>lower\<close> maps the ASCII capitals.
\<close>

definition demo_io :: io where
  "demo_io =
     \<lparr>http_get = (\<lambda>url. Inl (PyExc OtherException (ascii ''connection refused''))),
      int_of = (\<lambda>v. Inr 0),
      open_wb = (\<lambda>path. None),
      write_fails = (\<lambda>k. None),
      proc_run = (\<lambda>cmd. Inr 0),
      cpe_text = (\<lambda>cmd rc. ascii ''Command returned non-zero exit status''),
      adb_devices = Inr ''List of devices attached\<newline>emulator-5554	device\<newline>\<newline>'',
      decode = (\<lambda>b. Inr (map of_char b)),
      remove_fails = (\<lambda>path. None),
      lower = map (\<lambda>c. if 65 \<le> c \<and> c \<le> 90 then c + 32 else c)\<rparr>"

definition demo_response :: "bytes list \<Rightarrow> response" where
  \<comment> \<open>a good response with the given body\<close>
  "demo_response cs =
     \<lparr>status_error = None, content_length = None, body_chunks = cs, body_error = None\<rparr>"

text \<open>
  A state to start from: no package files, a ledger of two applications and no calls
  made; an environment in which every download succeeds; one in which \<open>adb\<close> cannot be
  started.
\<close>

definition demo_state :: shared where
  "demo_state =
     \<lparr>download_success = 0, download_failure = 0, total_installs = 0, install_success = 0,
      install_failure = 0, files = Map.empty,
      ledger = Some [pending_row ''a'' ''http://h/a'', pending_row ''b'' ''http://h/b''],
      calls = []\<rparr>"

definition good_net_io :: io where
  "good_net_io = demo_io\<lparr>http_get := \<lambda>url. Inr (demo_response [''PK''])\<rparr>"




text \<open>A directory \<open>/d\<close> that holds one package and one other file.\<close>

definition demo_dir_state :: shared where
  "demo_dir_state =
     demo_state\<lparr>files := [ascii ''/d/a.apk'' \<mapsto> ''PK'', ascii ''/d/notes.txt'' \<mapsto> ''x'']\<rparr>"

section \<open>The ledger upsert\<close>

lemma matching_index_empty: "matching_index df n = [] \<longleftrightarrow> n \<notin> set (names_of df)"
  unfolding matching_index_def names_of_def filter_empty_conv
  by (force simp: in_set_conv_nth)

lemma filter_upt_Cons:
  "filter P [0..<n] = i # is \<Longrightarrow> i < n \<and> P i \<and> (\<forall>j<i. \<not> P j)"
proof (induction n arbitrary: "is")
  case 0
  then show ?case by simp
next
  case (Suc n)
  show ?case
  proof (cases "filter P [0..<n]")
    case Nil
    with Suc.prems show ?thesis
      by (auto simp: filter_empty_conv split: if_splits) 
  next
    case (Cons a as)
    with Suc.prems have "a = i" by (auto split: if_splits)
    with Suc.IH[of as] Cons show ?thesis by auto
  qed
qed

lemma matching_index_Cons:
  assumes "matching_index df n = i # is"
  shows "i < length df \<and> col_name (df ! i) = n \<and> (\<forall>j<i. col_name (df ! j) \<noteq> n)"
  using filter_upt_Cons[OF assms[unfolded matching_index_def]] by simp

lemma length_rows_named: "length (rows_named df m) = count_list (names_of df) m"
  unfolding rows_named_def names_of_def
  by (induction df) auto

lemma upsert_frame_found:
  assumes "n \<in> set (names_of df)"
  shows "\<exists>i<length df. col_name (df ! i) = n \<and> (\<forall>j<i. col_name (df ! j) \<noteq> n) \<and>
           upsert_frame df n u d s = Inr (df[i := set_status (df ! i) d s])"
proof -
  from assms obtain i rest where m: "matching_index df n = i # rest"
    using matching_index_empty[of df n] by (cases "matching_index df n") auto
  from matching_index_Cons[OF m] assms m show ?thesis
    by (auto simp: upsert_frame_def)
qed

lemma upsert_frame_absent:
  "n \<notin> set (names_of df) \<Longrightarrow> upsert_frame df n u d s = Inr (df @ [new_row n u d s])"
  by (simp add: upsert_frame_def)

lemma names_of_set_status:
  "i < length df \<Longrightarrow> names_of (df[i := set_status (df ! i) d s]) = names_of df"
  by (simp add: names_of_def set_status_def map_update list_update_same_conv)

lemma upsert_frame_names:
  "upsert_frame df n u d s = Inr df' \<Longrightarrow>
     names_of df' = (if n \<in> set (names_of df) then names_of df else names_of df @ [n])"
proof (cases "n \<in> set (names_of df)")
  case True
  assume a: "upsert_frame df n u d s = Inr df'"
  from upsert_frame_found[OF True, of u d s] a True show ?thesis
    by (auto simp: names_of_set_status)
next
  case False
  assume a: "upsert_frame df n u d s = Inr df'"
  with upsert_frame_absent[OF False, of u d s] False show ?thesis
    by (auto simp: names_of_def new_row_def)
qed

lemma upsert_frame_returns: "\<exists>df'. upsert_frame df n u d s = Inr df'"
  using upsert_frame_found[of n df u d s] upsert_frame_absent[of n df u d s] by blast

lemma count_not_in: "n \<notin> set xs \<Longrightarrow> count_list xs n = 0"
  by (induction xs) auto

lemma upsert_frame_count:
  assumes "upsert_frame df n u d s = Inr df'"
  shows "length (rows_named df' m) =
           (if m = n \<and> n \<notin> set (names_of df) then 1 else length (rows_named df m))"
  using upsert_frame_names[OF assms]
  by (auto simp: length_rows_named count_not_in)

lemma rows_named_update_first:
  assumes "i < length df" "col_name (df ! i) = n" "\<forall>j<i. col_name (df ! j) \<noteq> n"
  shows "rows_named (df[i := set_status (df ! i) d s]) n = (rows_named df n)[0 := set_status (df ! i) d s]"
    and "rows_named df n \<noteq> []" and "hd (rows_named df n) = df ! i"
proof -
  have split: "df = take i df @ df ! i # drop (Suc i) df"
    using assms(1) by (simp add: id_take_nth_drop)
  have none: "filter (\<lambda>r. col_name r = n) (take i df) = []"
  proof -
    have "\<forall>r\<in>set (take i df). col_name r \<noteq> n"
    proof
      fix r assume "r \<in> set (take i df)"
      then obtain k where "k < length (take i df)" "take i df ! k = r"
        by (auto simp: in_set_conv_nth)
      then have "k < i" "df ! k = r" by simp_all
      with assms(3) show "col_name r \<noteq> n" by blast
    qed
    then show ?thesis by (simp add: filter_empty_conv)
  qed
  have upd: "df[i := set_status (df ! i) d s] = take i df @ set_status (df ! i) d s # drop (Suc i) df"
    using assms(1) by (simp add: upd_conv_take_nth_drop)
  have f0: "rows_named df n = df ! i # filter (\<lambda>r. col_name r = n) (drop (Suc i) df)"
    unfolding rows_named_def by (subst split) (simp add: none assms(2))
  show "rows_named (df[i := set_status (df ! i) d s]) n = (rows_named df n)[0 := set_status (df ! i) d s]"
    unfolding f0 unfolding rows_named_def upd by (simp add: none assms(2) set_status_def)
  show "rows_named df n \<noteq> []" using f0 by simp
  show "hd (rows_named df n) = df ! i" using f0 by simp
qed

lemma read_demo_excel: "read_excel demo_excel (Some table) = Inr table"
  by (simp add: read_excel_def demo_excel_def)

lemma to_demo_excel: "to_excel demo_excel df = Inr (Some df)"
  by (simp add: to_excel_def demo_excel_def)

lemma to_excel_ok: "excel_write xl df = None \<Longrightarrow> to_excel xl df = Inr (Some df)"
  by (simp add: to_excel_def)

lemma update_excel_status_read:
  "read_excel xl sheet = Inr df \<Longrightarrow> upsert_frame df n u d s = Inr df' \<Longrightarrow>
     update_excel_status xl sheet n u d s = to_excel xl df'"
  by (simp add: update_excel_status_def)

text \<open>
  C1, as stated, fails on a ledger that already holds two rows of one name: each call
  updates the first of them and leaves the second, so after two calls the file still
  holds two rows of that name.
\<close>

theorem update_excel_status_twice_counterexample:
  "update_excel_status demo_excel (Some [pending_row ''a'' ''u'', pending_row ''a'' ''v''])
       (ascii ''a'') (ascii ''w'') cn_download_ok cn_install_ok
     = Inr (Some [new_row (ascii ''a'') (ascii ''u'') cn_download_ok cn_install_ok,
                  pending_row ''a'' ''v'']) \<and>
   update_excel_status demo_excel
       (Some [new_row (ascii ''a'') (ascii ''u'') cn_download_ok cn_install_ok, pending_row ''a'' ''v''])
       (ascii ''a'') (ascii ''w'') cn_download_ok cn_not_installed
     = Inr (Some [new_row (ascii ''a'') (ascii ''u'') cn_download_ok cn_not_installed,
                  pending_row ''a'' ''v'']) \<and>
   length (rows_named [new_row (ascii ''a'') (ascii ''u'') cn_download_ok cn_not_installed,
                       pending_row ''a'' ''v''] (ascii ''a'')) = 2"
  by (simp add: update_excel_status_def read_demo_excel to_demo_excel upsert_frame_def
      names_of_def matching_index_def rows_named_def pending_row_def new_row_def
      set_status_def ascii_def upt_rec)

text \<open>
  C1, amended. Let a call of \<open>update_excel_status\<close> read the frame \<open>df\<close> from the ledger
  file. The frame \<open>df1\<close> it goes on to write is \<open>df\<close> with the two status cells of the
  first row of that name replaced, when \<open>df\<close> has a row of that name, and \<open>df\<close> with one
  new row appended, when it has none; the call leaves the file holding \<open>df1\<close> when the
  write does not fail. The number of rows of every other name is what it was, a name
  that had rows keeps their number, and a name that had none has one row. When \<open>df\<close>
  holds at most one row of the name and a second call with that name, on the file that
  holds \<open>df1\<close>, reads a frame with the name column of \<open>df1\<close>, the frame \<open>df2\<close> the second
  call writes has as many rows as the frame it read and exactly one row of the name,
  which carries the statuses of the second call. (The hypothesis on the second read is
  needed: \<open>read_excel\<close> gives back a name such as \<open>NA\<close> as a missing value and a column
  of digit strings as numbers, and then the second call finds no row of the name.)
\<close>

theorem update_excel_status_twice:
  assumes "read_excel xl sheet = Inr df"
  shows "\<exists>df1.
     upsert_frame df n u1 d1 s1 = Inr df1 \<and>
     (excel_write xl df1 = None \<longrightarrow> update_excel_status xl sheet n u1 d1 s1 = Inr (Some df1)) \<and>
     (n \<in> set (names_of df) \<longrightarrow>
        (\<exists>i<length df. col_name (df ! i) = n \<and> (\<forall>j<i. col_name (df ! j) \<noteq> n) \<and>
           df1 = df[i := set_status (df ! i) d1 s1])) \<and>
     (n \<notin> set (names_of df) \<longrightarrow> df1 = df @ [new_row n u1 d1 s1]) \<and>
     (\<forall>m. length (rows_named df1 m) =
        (if m = n \<and> n \<notin> set (names_of df) then 1 else length (rows_named df m))) \<and>
     (\<forall>df1'. length (rows_named df n) \<le> 1 \<and> read_excel xl (Some df1) = Inr df1' \<and>
             names_of df1' = names_of df1 \<longrightarrow>
        (\<exists>df2 r. upsert_frame df1' n u2 d2 s2 = Inr df2 \<and>
           (excel_write xl df2 = None \<longrightarrow>
              update_excel_status xl (Some df1) n u2 d2 s2 = Inr (Some df2)) \<and>
           length df2 = length df1' \<and> rows_named df2 n = [r] \<and> col_name r = n \<and>
           col_download_status r = d2 \<and> col_install_status r = s2))"
proof -
  obtain df1 where 1: "upsert_frame df n u1 d1 s1 = Inr df1"
    using upsert_frame_returns by blast
  have w1: "excel_write xl df1 = None \<longrightarrow> update_excel_status xl sheet n u1 d1 s1 = Inr (Some df1)"
    using update_excel_status_read[OF assms 1] by (simp add: to_excel_ok)
  have found: "n \<in> set (names_of df) \<longrightarrow>
        (\<exists>i<length df. col_name (df ! i) = n \<and> (\<forall>j<i. col_name (df ! j) \<noteq> n) \<and>
           df1 = df[i := set_status (df ! i) d1 s1])"
  proof
    assume "n \<in> set (names_of df)"
    from upsert_frame_found[OF this, of u1 d1 s1] 1 show
      "\<exists>i<length df. col_name (df ! i) = n \<and> (\<forall>j<i. col_name (df ! j) \<noteq> n) \<and>
           df1 = df[i := set_status (df ! i) d1 s1]" by auto
  qed
  have absent: "n \<notin> set (names_of df) \<longrightarrow> df1 = df @ [new_row n u1 d1 s1]"
    using upsert_frame_absent[of n df u1 d1 s1] 1 by auto
  have cnt: "\<forall>m. length (rows_named df1 m) =
        (if m = n \<and> n \<notin> set (names_of df) then 1 else length (rows_named df m))"
    using upsert_frame_count[OF 1] by blast
  have in1: "n \<in> set (names_of df1)"
    using upsert_frame_names[OF 1] by (auto split: if_splits)
  have two: "\<exists>df2 r. upsert_frame df1' n u2 d2 s2 = Inr df2 \<and>
           (excel_write xl df2 = None \<longrightarrow>
              update_excel_status xl (Some df1) n u2 d2 s2 = Inr (Some df2)) \<and>
           length df2 = length df1' \<and> rows_named df2 n = [r] \<and> col_name r = n \<and>
           col_download_status r = d2 \<and> col_install_status r = s2"
    if le: "length (rows_named df n) \<le> 1" and rd: "read_excel xl (Some df1) = Inr df1'"
      and nm: "names_of df1' = names_of df1" for df1'
  proof -
    from in1 nm have in1': "n \<in> set (names_of df1')" by simp
    from upsert_frame_found[OF in1', of u2 d2 s2]
    obtain k where k: "k < length df1'" "col_name (df1' ! k) = n" "\<forall>j<k. col_name (df1' ! j) \<noteq> n"
      and 2: "upsert_frame df1' n u2 d2 s2 = Inr (df1'[k := set_status (df1' ! k) d2 s2])"
      by blast
    let ?df2 = "df1'[k := set_status (df1' ! k) d2 s2]"
    have "length (rows_named df1 n) \<le> 1" using cnt le by (auto split: if_splits)
    then have "length (rows_named df1' n) \<le> 1" by (simp add: length_rows_named nm)
    moreover have "rows_named df1' n \<noteq> []" using rows_named_update_first(2)[OF k] .
    ultimately obtain r0 where r0: "rows_named df1' n = [r0]"
      by (cases "rows_named df1' n") auto
    have r: "rows_named ?df2 n = [set_status (df1' ! k) d2 s2]"
      using rows_named_update_first(1)[OF k, of d2 s2] r0 by simp
    have w2: "excel_write xl ?df2 = None \<longrightarrow>
              update_excel_status xl (Some df1) n u2 d2 s2 = Inr (Some ?df2)"
      using update_excel_status_read[OF rd 2] by (simp add: to_excel_ok)
    from 2 w2 r k(2) show ?thesis
      by (intro exI[of _ ?df2] exI[of _ "set_status (df1' ! k) d2 s2"])
         (simp add: set_status_def)
  qed
  have two': "\<forall>df1'. length (rows_named df n) \<le> 1 \<and> read_excel xl (Some df1) = Inr df1' \<and>
             names_of df1' = names_of df1 \<longrightarrow>
        (\<exists>df2 r. upsert_frame df1' n u2 d2 s2 = Inr df2 \<and>
           (excel_write xl df2 = None \<longrightarrow>
              update_excel_status xl (Some df1) n u2 d2 s2 = Inr (Some df2)) \<and>
           length df2 = length df1' \<and> rows_named df2 n = [r] \<and> col_name r = n \<and>
           col_download_status r = d2 \<and> col_install_status r = s2)"
    using two by (intro allI impI) (elim conjE)
  show ?thesis
    by (rule exI[of _ df1]) (intro conjI 1 w1 found absent cnt two')
qed

theorem update_excel_status_twice_witness:
  "read_excel demo_excel (Some [pending_row ''b'' ''v'']) = Inr [pending_row ''b'' ''v''] \<and>
   (\<exists>df1 df2 r.
      update_excel_status demo_excel (Some [pending_row ''b'' ''v''])
        (ascii ''a'') (ascii ''u'') cn_download_ok cn_install_ok = Inr (Some df1) \<and>
      df1 = [pending_row ''b'' ''v'', new_row (ascii ''a'') (ascii ''u'') cn_download_ok cn_install_ok] \<and>
      update_excel_status demo_excel (Some df1)
        (ascii ''a'') (ascii ''w'') cn_download_failed cn_not_installed = Inr (Some df2) \<and>
      length df2 = 2 \<and> rows_named df2 (ascii ''a'') = [r] \<and>
      col_download_status r = cn_download_failed \<and> col_install_status r = cn_not_installed)"
proof -
  let ?df = "[pending_row ''b'' ''v'']"
  let ?a = "ascii ''a''"
  have rd: "read_excel demo_excel (Some ?df) = Inr ?df" by (rule read_demo_excel)
  have le: "length (rows_named ?df ?a) \<le> 1" by (simp add: rows_named_def)
  have nin: "?a \<notin> set (names_of ?df)"
    by (simp add: names_of_def pending_row_def new_row_def ascii_def)
  have wr: "excel_write demo_excel t = None" for t by (simp add: demo_excel_def)
  from update_excel_status_twice[OF rd, of ?a "ascii ''u''" cn_download_ok cn_install_ok
      "ascii ''w''" cn_download_failed cn_not_installed]
  obtain df1 where
    1: "excel_write demo_excel df1 = None \<longrightarrow>
          update_excel_status demo_excel (Some ?df) ?a (ascii ''u'') cn_download_ok cn_install_ok
            = Inr (Some df1)" and
    3: "?a \<notin> set (names_of ?df) \<longrightarrow>
          df1 = ?df @ [new_row ?a (ascii ''u'') cn_download_ok cn_install_ok]" and
    4: "\<forall>df1'. length (rows_named ?df ?a) \<le> 1 \<and> read_excel demo_excel (Some df1) = Inr df1' \<and>
             names_of df1' = names_of df1 \<longrightarrow>
        (\<exists>df2 r. upsert_frame df1' ?a (ascii ''w'') cn_download_failed cn_not_installed = Inr df2 \<and>
           (excel_write demo_excel df2 = None \<longrightarrow>
              update_excel_status demo_excel (Some df1) ?a (ascii ''w'') cn_download_failed
                cn_not_installed = Inr (Some df2)) \<and>
           length df2 = length df1' \<and> rows_named df2 ?a = [r] \<and> col_name r = ?a \<and>
           col_download_status r = cn_download_failed \<and> col_install_status r = cn_not_installed)"
    by (elim exE conjE) (rule that, assumption+)
  from 3 nin have df1: "df1 = [pending_row ''b'' ''v'', new_row ?a (ascii ''u'') cn_download_ok cn_install_ok]"
    by simp
  from 1 wr have c1: "update_excel_status demo_excel (Some ?df) ?a (ascii ''u'') cn_download_ok
      cn_install_ok = Inr (Some df1)" by simp
  have "length (rows_named ?df ?a) \<le> 1 \<and> read_excel demo_excel (Some df1) = Inr df1 \<and>
          names_of df1 = names_of df1"
    using le read_demo_excel[of df1] by simp
  from mp[OF spec[OF 4, of df1] this]
  obtain df2 r where
    5: "excel_write demo_excel df2 = None \<longrightarrow>
          update_excel_status demo_excel (Some df1) ?a (ascii ''w'') cn_download_failed
            cn_not_installed = Inr (Some df2)" and
    6: "length df2 = length df1" "rows_named df2 ?a = [r]"
       "col_download_status r = cn_download_failed" "col_install_status r = cn_not_installed"
    by (elim exE conjE) (rule that, assumption+)
  from 5 wr have c2: "update_excel_status demo_excel (Some df1) ?a (ascii ''w'') cn_download_failed
      cn_not_installed = Inr (Some df2)" by simp
  from 6(1) df1 have l2: "length df2 = 2" by simp
  from rd c1 df1 c2 l2 6(2,3,4) show ?thesis by blast
qed

text \<open>
  C8. On a ledger that has a row of the given name, the upsert rewrites the first such
  row: the frame keeps its length, the row keeps its name and its link and takes the
  two new statuses, and every other row is what it was.
\<close>

theorem upsert_frame_frame:
  assumes "n \<in> set (names_of df)"
  shows "\<exists>i df'. i < length df \<and> col_name (df ! i) = n \<and> (\<forall>j<i. col_name (df ! j) \<noteq> n) \<and>
           upsert_frame df n u d s = Inr df' \<and> length df' = length df \<and>
           col_name (df' ! i) = col_name (df ! i) \<and> col_url (df' ! i) = col_url (df ! i) \<and>
           col_download_status (df' ! i) = d \<and> col_install_status (df' ! i) = s \<and>
           (\<forall>j<length df. j \<noteq> i \<longrightarrow> df' ! j = df ! j)"
proof -
  from upsert_frame_found[OF assms, of u d s]
  obtain i where i: "i < length df" "col_name (df ! i) = n" "\<forall>j<i. col_name (df ! j) \<noteq> n"
    "upsert_frame df n u d s = Inr (df[i := set_status (df ! i) d s])" by blast
  then show ?thesis
    by (intro exI[of _ i] exI[of _ "df[i := set_status (df ! i) d s]"]) (simp add: set_status_def)
qed

theorem upsert_frame_frame_witness:
  "ascii ''b'' \<in> set (names_of [demo_row ''a'' ''u'', demo_row ''b'' ''v'']) \<and>
   upsert_frame [demo_row ''a'' ''u'', demo_row ''b'' ''v''] (ascii ''b'') (ascii ''w'') cn_download_ok cn_install_ok
     = Inr [demo_row ''a'' ''u'', new_row (ascii ''b'') (ascii ''v'') cn_download_ok cn_install_ok]"
proof -
  let ?df = "[demo_row ''a'' ''u'', demo_row ''b'' ''v'']"
  have h: "ascii ''b'' \<in> set (names_of ?df)"
    by (simp add: names_of_def demo_row_def new_row_def)
  from upsert_frame_frame[OF h, of "ascii ''w''" cn_download_ok cn_install_ok]
  obtain i df' where i: "i < length ?df" "col_name (?df ! i) = ascii ''b''" and
    u: "upsert_frame ?df (ascii ''b'') (ascii ''w'') cn_download_ok cn_install_ok = Inr df'" and
    l: "length df' = length ?df" and
    c: "col_name (df' ! i) = col_name (?df ! i)" "col_url (df' ! i) = col_url (?df ! i)"
       "col_download_status (df' ! i) = cn_download_ok" "col_install_status (df' ! i) = cn_install_ok" and
    o: "\<forall>j<length ?df. j \<noteq> i \<longrightarrow> df' ! j = ?df ! j"
    by blast
  from i have i1: "i = 1"
    by (cases i) (auto simp: demo_row_def new_row_def ascii_def)
  from l obtain x y where df': "df' = [x, y]"
    by (auto simp: length_Suc_conv)
  from o i1 df' have x: "x = demo_row ''a'' ''u''" by auto
  from c i1 df' have "y = new_row (ascii ''b'') (ascii ''v'') cn_download_ok cn_install_ok"
    by (cases y) (simp add: demo_row_def new_row_def)
  with x df' u h show ?thesis by simp
qed

section \<open>Locating the device\<close>

lemma tokens_from_nonspace:
  "\<forall>c\<in>set d. \<not> is_space c \<Longrightarrow> tokens_from cur (d @ rest) = tokens_from (cur @ d) rest"
  by (induction d arbitrary: cur) auto

lemma tokens_from_spaces:
  "\<forall>c\<in>set ws. is_space c \<Longrightarrow> tokens_from [] (ws @ rest) = tokens_from [] rest"
  by (induction ws) auto

lemma split_token:
  assumes "\<forall>c\<in>set ws. is_space c" "d \<noteq> []" "\<forall>c\<in>set d. \<not> is_space c"
    "rest = [] \<or> is_space (hd rest)"
  shows "\<exists>ts. split (ws @ d @ rest) = d # ts"
proof -
  have "split (ws @ d @ rest) = tokens_from d rest"
    using assms(1,3) by (simp add: split_def tokens_from_spaces tokens_from_nonspace)
  moreover have "\<exists>ts. tokens_from d rest = d # ts"
    using assms(2,4) by (cases rest) auto
  ultimately show ?thesis by simp
qed

lemma first_token_decomp:
  "\<exists>ws rest. s = ws @ first_token s @ rest \<and> (\<forall>c\<in>set ws. is_space c) \<and>
     (\<forall>c\<in>set (first_token s). \<not> is_space c) \<and> (rest = [] \<or> is_space (hd rest))"
proof -
  let ?ws = "takeWhile is_space s"
  let ?t = "dropWhile is_space s"
  let ?rest = "dropWhile (\<lambda>c. \<not> is_space c) ?t"
  have "s = ?ws @ first_token s @ ?rest"
    by (simp add: first_token_def)
  moreover have "\<forall>c\<in>set ?ws. is_space c"
    by (auto dest: set_takeWhileD)
  moreover have "\<forall>c\<in>set (first_token s). \<not> is_space c"
    by (auto simp: first_token_def dest: set_takeWhileD)
  moreover have "?rest = [] \<or> is_space (hd ?rest)"
    using hd_dropWhile[of "\<lambda>c. \<not> is_space c" ?t] by auto
  ultimately show ?thesis by blast
qed

lemma first_token_unique:
  assumes "s = ws @ d @ rest" "\<forall>c\<in>set ws. is_space c" "d \<noteq> []" "\<forall>c\<in>set d. \<not> is_space c"
    "rest = [] \<or> is_space (hd rest)"
  shows "first_token s = d"
proof -
  have 1: "dropWhile is_space s = d @ rest"
    using assms(1,2,3,4) by (cases d) (auto simp: dropWhile_append3 dropWhile_append2)
  have "takeWhile (\<lambda>c. \<not> is_space c) (d @ rest) = d"
    using assms(4,5) by (cases rest) (auto simp: takeWhile_tail)
  with 1 show ?thesis by (simp add: first_token_def)
qed

lemma split_first_token:
  assumes "first_token s \<noteq> []"
  shows "\<exists>ts. split s = first_token s # ts"
proof -
  from first_token_decomp[of s] obtain ws rest where
    d: "s = ws @ first_token s @ rest" "\<forall>c\<in>set ws. is_space c"
       "\<forall>c\<in>set (first_token s). \<not> is_space c" "rest = [] \<or> is_space (hd rest)"
    by blast
  from split_token[OF d(2) assms d(3) d(4)] d(1) show ?thesis by simp
qed

lemma first_token_nonempty:
  assumes "c \<in> set s" "\<not> is_space c"
  shows "first_token s \<noteq> []"
proof -
  have "dropWhile is_space s \<noteq> []"
    using assms by (auto simp: dropWhile_eq_Nil_conv)
  then obtain x xs where x: "dropWhile is_space s = x # xs"
    by (cases "dropWhile is_space s") auto
  with hd_dropWhile[of is_space s] have "\<not> is_space x" by auto
  with x show ?thesis by (simp add: first_token_def)
qed

lemma device_first_token:
  assumes "suffix (ascii ''device'') line"
  shows "first_token line \<noteq> []"
proof -
  from assms obtain p where "line = p @ ascii ''device''" by (auto simp: suffix_def)
  then have "101 \<in> set line" by (simp add: ascii_def)
  moreover have "\<not> is_space 101" by (simp add: is_space_def)
  ultimately show ?thesis by (rule first_token_nonempty)
qed

lemma online_lines_device: "line \<in> set (online_lines tx) \<Longrightarrow> suffix (ascii ''device'') line"
  by (simp add: online_lines_def)

lemma check_device_online_one:
  assumes "adb_devices env = Inr out" "decode env out = Inr tx" "online_lines tx = [line]"
  shows "check_device_online env = Inr (Some (first_token line))"
proof -
  have suf: "suffix (ascii ''device'') line"
    using online_lines_device[of line tx] assms(3) by simp
  from split_first_token[OF device_first_token[OF suf]]
  obtain ts where "split line = first_token line # ts" by blast
  with assms show ?thesis
    by (simp add: check_device_online_def check_device_online_try_def)
qed

lemma check_device_online_other:
  assumes "adb_devices env = Inr out" "decode env out = Inr tx" "length (online_lines tx) \<noteq> 1"
  shows "check_device_online env = Inr None"
proof -
  from assms(3) have "length (online_lines tx) = 0 \<or> length (online_lines tx) > 1"
    by arith
  with assms(1,2) show ?thesis
    by (auto simp: check_device_online_def check_device_online_try_def Let_def)
qed

lemma check_device_online_raise:
  "(\<exists>e. adb_devices env = Inl e) \<or> (\<exists>out e. adb_devices env = Inr out \<and> decode env out = Inl e) \<Longrightarrow>
     check_device_online env = Inr None"
  by (auto simp: check_device_online_def check_device_online_try_def)

lemma check_device_online_returns: "\<exists>r. check_device_online env = Inr r"
  by (auto simp: check_device_online_def split: sum.splits)

text \<open>
  C3. \<open>check_device_online\<close> never raises. When \<open>adb devices\<close> ran and its output
  decoded, it returns a device identifier exactly when one line of the output ends with
  \<open>device\<close>, and the identifier is that line's first whitespace-delimited token (not
  empty, free of whitespace, after leading whitespace only and followed by whitespace or
  the line's end); with no such line or several it returns \<open>None\<close>, as it does when
  the tool cannot be run or its output cannot be decoded.
\<close>

theorem check_device_online_spec:
  "(\<exists>r. check_device_online env = Inr r) \<and>
   ((\<exists>e. adb_devices env = Inl e) \<longrightarrow> check_device_online env = Inr None) \<and>
   (\<forall>out. adb_devices env = Inr out \<longrightarrow>
      (case decode env out of
         Inl e \<Rightarrow> check_device_online env = Inr None
       | Inr tx \<Rightarrow>
           (\<forall>d. check_device_online env = Inr (Some d) \<longleftrightarrow>
                  (\<exists>line. online_lines tx = [line] \<and> d = first_token line)) \<and>
           (length (online_lines tx) \<noteq> 1 \<longrightarrow> check_device_online env = Inr None) \<and>
           (\<forall>line. online_lines tx = [line] \<longrightarrow>
              first_token line \<noteq> [] \<and>
              (\<exists>ws rest. line = ws @ first_token line @ rest \<and> (\<forall>c\<in>set ws. is_space c) \<and>
                 (\<forall>c\<in>set (first_token line). \<not> is_space c) \<and>
                 (rest = [] \<or> is_space (hd rest))))))"
proof (intro conjI allI impI)
  show "\<exists>r. check_device_online env = Inr r" by (rule check_device_online_returns)
next
  assume "\<exists>e. adb_devices env = Inl e"
  then show "check_device_online env = Inr None" by (simp add: check_device_online_raise)
next
  fix out assume out: "adb_devices env = Inr out"
  show "case decode env out of
         Inl e \<Rightarrow> check_device_online env = Inr None
       | Inr tx \<Rightarrow>
           (\<forall>d. check_device_online env = Inr (Some d) \<longleftrightarrow>
                  (\<exists>line. online_lines tx = [line] \<and> d = first_token line)) \<and>
           (length (online_lines tx) \<noteq> 1 \<longrightarrow> check_device_online env = Inr None) \<and>
           (\<forall>line. online_lines tx = [line] \<longrightarrow>
              first_token line \<noteq> [] \<and>
              (\<exists>ws rest. line = ws @ first_token line @ rest \<and> (\<forall>c\<in>set ws. is_space c) \<and>
                 (\<forall>c\<in>set (first_token line). \<not> is_space c) \<and>
                 (rest = [] \<or> is_space (hd rest))))"
  proof (cases "decode env out")
    case (Inl e)
    with out show ?thesis using check_device_online_raise[of env] by auto
  next
    case (Inr tx)
    have a: "check_device_online env = Inr (Some d) \<longleftrightarrow>
                  (\<exists>line. online_lines tx = [line] \<and> d = first_token line)" for d
    proof (cases "length (online_lines tx) = 1")
      case True
      then obtain line where l: "online_lines tx = [line]"
        by (cases "online_lines tx") auto
      from check_device_online_one[OF out Inr l] l show ?thesis by auto
    next
      case False
      from check_device_online_other[OF out Inr False] False show ?thesis by auto
    qed
    have b: "length (online_lines tx) \<noteq> 1 \<longrightarrow> check_device_online env = Inr None"
      using check_device_online_other[OF out Inr] by blast
    have c: "first_token line \<noteq> [] \<and>
              (\<exists>ws rest. line = ws @ first_token line @ rest \<and> (\<forall>c\<in>set ws. is_space c) \<and>
                 (\<forall>c\<in>set (first_token line). \<not> is_space c) \<and>
                 (rest = [] \<or> is_space (hd rest)))" if "online_lines tx = [line]" for line
      using device_first_token[OF online_lines_device[of line tx]] that first_token_decomp[of line]
      by simp
    from a b c Inr show ?thesis by simp
  qed
qed

lemma demo_lines:
  "online_lines (map of_char ''List of devices attached\<newline>emulator-5554	device\<newline>\<newline>'')
     = [ascii ''emulator-5554	device'']"
  by (simp add: online_lines_def splitlines_def is_linebreak_def ascii_def suffix_to_prefix)

theorem check_device_online_spec_witness:
  "adb_devices demo_io = Inr ''List of devices attached\<newline>emulator-5554	device\<newline>\<newline>'' \<and>
   online_lines (map of_char ''List of devices attached\<newline>emulator-5554	device\<newline>\<newline>'')
     = [ascii ''emulator-5554	device''] \<and>
   check_device_online demo_io = Inr (Some (ascii ''emulator-5554''))"
proof -
  let ?out = "''List of devices attached\<newline>emulator-5554	device\<newline>\<newline>''"
  have o: "adb_devices demo_io = Inr ?out" by (simp add: demo_io_def)
  have d: "decode demo_io ?out = Inr (map of_char ?out)" by (simp add: demo_io_def)
  have ft: "first_token (ascii ''emulator-5554	device'') = ascii ''emulator-5554''"
    by (simp add: first_token_def ascii_def is_space_def)
  from check_device_online_spec[of demo_io] o
  have "case decode demo_io ?out of
         Inl e \<Rightarrow> check_device_online demo_io = Inr None
       | Inr tx \<Rightarrow>
           (\<forall>d. check_device_online demo_io = Inr (Some d) \<longleftrightarrow>
                  (\<exists>line. online_lines tx = [line] \<and> d = first_token line)) \<and>
           (length (online_lines tx) \<noteq> 1 \<longrightarrow> check_device_online demo_io = Inr None) \<and>
           (\<forall>line. online_lines tx = [line] \<longrightarrow>
              first_token line \<noteq> [] \<and>
              (\<exists>ws rest. line = ws @ first_token line @ rest \<and> (\<forall>c\<in>set ws. is_space c) \<and>
                 (\<forall>c\<in>set (first_token line). \<not> is_space c) \<and>
                 (rest = [] \<or> is_space (hd rest))))"
    by blast
  then have "check_device_online demo_io = Inr (Some (first_token (ascii ''emulator-5554	device'')))"
    unfolding d using demo_lines by simp
  with o demo_lines ft show ?thesis by simp
qed

section \<open>Fetching a package\<close>

lemma write_chunks_ok:
  "\<forall>k. werr k = None \<Longrightarrow> fs path = Some old \<Longrightarrow>
     write_chunks werr path n cs fs = (None, fs(path \<mapsto> old @ concat cs))"
proof (induction cs arbitrary: n fs old)
  case Nil
  then show ?case by (simp add: fun_upd_idem)
next
  case (Cons c cs)
  have 1: "write_chunks werr path n (c # cs) fs = write_chunks werr path (Suc n) cs (fs(path \<mapsto> old @ c))"
    using Cons.prems by simp
  have 2: "write_chunks werr path (Suc n) cs (fs(path \<mapsto> old @ c))
      = (None, (fs(path \<mapsto> old @ c))(path \<mapsto> (old @ c) @ concat cs))"
    by (rule Cons.IH) (use Cons.prems in simp_all)
  have 3: "(fs(path \<mapsto> old @ c))(path \<mapsto> (old @ c) @ concat cs) = fs(path \<mapsto> old @ concat (c # cs))"
    by simp
  show ?case unfolding 1 2 3 ..
qed

lemma write_chunks_other:
  "write_chunks werr path n cs fs = (r, fs') \<Longrightarrow> q \<noteq> path \<Longrightarrow> fs' q = fs q"
proof (induction cs arbitrary: n fs)
  case Nil
  then show ?case by simp
next
  case (Cons c cs)
  show ?case
  proof (cases "werr n")
    case None
    with Cons.prems(1) have "write_chunks werr path (Suc n) cs
        (fs(path \<mapsto> (case fs path of None \<Rightarrow> c | Some old \<Rightarrow> old @ c))) = (r, fs')" by simp
    from Cons.IH[OF this Cons.prems(2)] Cons.prems(2) show ?thesis by simp
  next
    case (Some e)
    with Cons.prems show ?thesis by simp
  qed
qed

lemma write_chunks_fails:
  "k < length cs \<Longrightarrow> werr (n + k) = Some e \<Longrightarrow> \<forall>j<k. werr (n + j) = None \<Longrightarrow>
     fst (write_chunks werr path n cs fs) = Some e"
proof (induction cs arbitrary: n k fs)
  case Nil
  then show ?case by simp
next
  case (Cons c cs)
  show ?case
  proof (cases k)
    case 0
    with Cons.prems show ?thesis by simp
  next
    case (Suc k')
    from Cons.prems(3) Suc have n0: "werr n = None" by force
    have "fst (write_chunks werr path (Suc n) cs
        (fs(path \<mapsto> (case fs path of None \<Rightarrow> c | Some old \<Rightarrow> old @ c)))) = Some e"
    proof (rule Cons.IH[of k'])
      show "k' < length cs" using Cons.prems(1) Suc by simp
      show "werr (Suc n + k') = Some e" using Cons.prems(2) Suc by simp
      show "\<forall>j<k'. werr (Suc n + j) = None"
      proof (intro allI impI)
        fix j assume "j < k'"
        then have "Suc j < k" using Suc by simp
        with Cons.prems(3) have "werr (n + Suc j) = None" by blast
        then show "werr (Suc n + j) = None" by simp
      qed
    qed
    with n0 show ?thesis by simp
  qed
qed

lemma download_app_try_other:
  "download_app_try env fs app_name url dir sp = (r, fs') \<Longrightarrow>
     q \<noteq> apk_file_path dir app_name \<Longrightarrow> fs' q = fs q"
  by (auto simp: download_app_try_def Let_def split: sum.splits option.splits prod.splits
      dest: write_chunks_other)

lemma download_app_try_path:
  "download_app_try env fs app_name url dir sp = (Inr p, fs') \<Longrightarrow> p = apk_file_path dir app_name"
  by (auto simp: download_app_try_def Let_def split: sum.splits option.splits prod.splits)

lemma download_app_try_written:
  assumes "http_get env url = Inr resp" "status_error resp = None" "total_size_of env resp = Inr n"
    "open_wb env (apk_file_path dir app_name) = None" "\<forall>k. write_fails env k = None"
  shows "download_app_try env fs app_name url dir sp =
           ((case body_error resp of Some e \<Rightarrow> Inl e | None \<Rightarrow> Inr (apk_file_path dir app_name)),
            fs(apk_file_path dir app_name \<mapsto> concat (body_chunks resp)))"
proof -
  let ?path = "apk_file_path dir app_name"
  have w: "write_chunks (write_fails env) ?path 0 (body_chunks resp) (fs(?path \<mapsto> []))
          = (None, (fs(?path \<mapsto> []))(?path \<mapsto> [] @ concat (body_chunks resp)))"
    by (rule write_chunks_ok) (use assms in simp_all)
  show ?thesis
    using assms w by (auto simp: download_app_try_def Let_def split: option.splits)
qed



lemma download_app_get_fails:
  "http_get env url = Inl e \<Longrightarrow>
     download_app env fs app_name url dir sp = (Inr (None, cn_download_failed @ exc_text e), fs)"
  by (simp add: download_app_def download_app_try_def)

lemma download_app_status_fails:
  "http_get env url = Inr resp \<Longrightarrow> status_error resp = Some e \<Longrightarrow>
     download_app env fs app_name url dir sp = (Inr (None, cn_download_failed @ exc_text e), fs)"
  by (simp add: download_app_def download_app_try_def)

lemma download_app_length_fails:
  "http_get env url = Inr resp \<Longrightarrow> status_error resp = None \<Longrightarrow> total_size_of env resp = Inl e \<Longrightarrow>
     download_app env fs app_name url dir sp = (Inr (None, cn_download_failed @ exc_text e), fs)"
  by (simp add: download_app_def download_app_try_def)

lemma download_app_open_fails:
  "http_get env url = Inr resp \<Longrightarrow> status_error resp = None \<Longrightarrow> total_size_of env resp = Inr n \<Longrightarrow>
     open_wb env (apk_file_path dir app_name) = Some e \<Longrightarrow>
     download_app env fs app_name url dir sp = (Inr (None, cn_download_failed @ exc_text e), fs)"
  by (simp add: download_app_def download_app_try_def)

lemma download_app_write_fails:
  assumes "http_get env url = Inr resp" "status_error resp = None" "total_size_of env resp = Inr n"
    "open_wb env (apk_file_path dir app_name) = None"
    "k < length (body_chunks resp)" "write_fails env k = Some e" "\<forall>j<k. write_fails env j = None"
  shows "fst (download_app env fs app_name url dir sp) =
           Inr (None, cn_download_failed @ exc_text e)"
proof -
  let ?path = "apk_file_path dir app_name"
  have "fst (write_chunks (write_fails env) ?path 0 (body_chunks resp) (fs(?path \<mapsto> []))) = Some e"
    by (rule write_chunks_fails[of k]) (use assms in simp_all)
  then obtain fs' where "write_chunks (write_fails env) ?path 0 (body_chunks resp) (fs(?path \<mapsto> []))
      = (Some e, fs')"
    by (cases "write_chunks (write_fails env) ?path 0 (body_chunks resp) (fs(?path \<mapsto> []))") simp
  with assms(1-4) show ?thesis
    by (simp add: download_app_def download_app_try_def Let_def)
qed

lemma download_app_stream_fails:
  assumes "http_get env url = Inr resp" "status_error resp = None" "total_size_of env resp = Inr n"
    "open_wb env (apk_file_path dir app_name) = None" "\<forall>k. write_fails env k = None"
    "body_error resp = Some e"
  shows "download_app env fs app_name url dir sp =
           (Inr (None, cn_download_failed @ exc_text e),
            fs(apk_file_path dir app_name \<mapsto> concat (body_chunks resp)))"
  using download_app_try_written[OF assms(1-5), of fs sp] assms(6)
  by (simp add: download_app_def)

lemma download_app_succeeds:
  assumes "http_get env url = Inr resp" "status_error resp = None" "total_size_of env resp = Inr n"
    "open_wb env (apk_file_path dir app_name) = None" "\<forall>k. write_fails env k = None"
    "body_error resp = None"
  shows "download_app env fs app_name url dir sp =
           (Inr (Some (apk_file_path dir app_name), cn_download_ok),
            fs(apk_file_path dir app_name \<mapsto> concat (body_chunks resp)))"
  using download_app_try_written[OF assms(1-5), of fs sp] assms(6)
  by (simp add: download_app_def)

lemma download_app_result:
  "\<exists>p msg fs'. download_app env fs app_name url dir sp = (Inr (p, msg), fs') \<and>
     (p = None \<and> (\<exists>e. msg = cn_download_failed @ exc_text e) \<or>
      p = Some (apk_file_path dir app_name) \<and> msg = cn_download_ok) \<and>
     (\<forall>q. q \<noteq> apk_file_path dir app_name \<longrightarrow> fs' q = fs q)"
proof (cases "download_app_try env fs app_name url dir sp")
  case (Pair r fs')
  show ?thesis
  proof (cases r)
    case (Inl e)
    with Pair download_app_try_other[OF Pair] show ?thesis
      by (auto simp: download_app_def)
  next
    case (Inr q)
    with Pair download_app_try_other[OF Pair] download_app_try_path[of env fs app_name url dir sp q fs']
    show ?thesis by (auto simp: download_app_def)
  qed
qed

text \<open>
  C4. \<open>download_app\<close> never raises: it returns a pair. Either the path is \<open>None\<close> and the
  status is the failure text followed by the exception's text, or the path is the
  package file's path and the status is the success text; no other file is touched. A
  failed request, an error status, a bad length header, a failure to open the file, a
  failed write and a failure of the stream each give the first, with the text of that
  exception; when nothing fails the file at the returned
  path holds the body.
\<close>

theorem download_app_never_raises:
  "\<exists>p msg fs'.
     download_app env fs app_name url dir sp = (Inr (p, msg), fs') \<and>
     (p = None \<and> (\<exists>e. msg = cn_download_failed @ exc_text e) \<or>
      p = Some (apk_file_path dir app_name) \<and> msg = cn_download_ok) \<and>
     (\<forall>q. q \<noteq> apk_file_path dir app_name \<longrightarrow> fs' q = fs q) \<and>
     (\<forall>e. http_get env url = Inl e \<longrightarrow> p = None \<and> msg = cn_download_failed @ exc_text e) \<and>
     (\<forall>resp e. http_get env url = Inr resp \<and> status_error resp = Some e \<longrightarrow>
        p = None \<and> msg = cn_download_failed @ exc_text e) \<and>
     (\<forall>resp e. http_get env url = Inr resp \<and> status_error resp = None \<and>
        total_size_of env resp = Inl e \<longrightarrow>
        p = None \<and> msg = cn_download_failed @ exc_text e) \<and>
     (\<forall>resp n e. http_get env url = Inr resp \<and> status_error resp = None \<and>
        total_size_of env resp = Inr n \<and> open_wb env (apk_file_path dir app_name) = Some e \<longrightarrow>
        p = None \<and> msg = cn_download_failed @ exc_text e) \<and>
     (\<forall>resp n k e. http_get env url = Inr resp \<and> status_error resp = None \<and>
        total_size_of env resp = Inr n \<and> open_wb env (apk_file_path dir app_name) = None \<and>
        k < length (body_chunks resp) \<and> write_fails env k = Some e \<and>
        (\<forall>j<k. write_fails env j = None) \<longrightarrow>
        p = None \<and> msg = cn_download_failed @ exc_text e) \<and>
     (\<forall>resp n e. http_get env url = Inr resp \<and> status_error resp = None \<and>
        total_size_of env resp = Inr n \<and> open_wb env (apk_file_path dir app_name) = None \<and>
        (\<forall>k. write_fails env k = None) \<and> body_error resp = Some e \<longrightarrow>
        p = None \<and> msg = cn_download_failed @ exc_text e) \<and>
     (\<forall>resp n. http_get env url = Inr resp \<and> status_error resp = None \<and>
        total_size_of env resp = Inr n \<and> open_wb env (apk_file_path dir app_name) = None \<and>
        (\<forall>k. write_fails env k = None) \<and> body_error resp = None \<longrightarrow>
        p = Some (apk_file_path dir app_name) \<and> msg = cn_download_ok \<and>
        fs' (apk_file_path dir app_name) = Some (concat (body_chunks resp)))"
proof -
  let ?path = "apk_file_path dir app_name"
  from download_app_result[of env fs app_name url dir sp]
  obtain p msg fs' where d: "download_app env fs app_name url dir sp = (Inr (p, msg), fs')"
    and 1: "p = None \<and> (\<exists>e. msg = cn_download_failed @ exc_text e) \<or>
      p = Some ?path \<and> msg = cn_download_ok"
    and 2: "\<forall>q. q \<noteq> ?path \<longrightarrow> fs' q = fs q"
    by blast
  have 3: "\<forall>e. http_get env url = Inl e \<longrightarrow> p = None \<and> msg = cn_download_failed @ exc_text e"
  proof (intro allI impI)
    fix e assume "http_get env url = Inl e"
    from download_app_get_fails[OF this, of fs app_name dir sp] d
    show "p = None \<and> msg = cn_download_failed @ exc_text e" by simp
  qed
  have 4: "\<forall>resp e. http_get env url = Inr resp \<and> status_error resp = Some e \<longrightarrow>
        p = None \<and> msg = cn_download_failed @ exc_text e"
  proof (intro allI impI)
    fix resp e assume a: "http_get env url = Inr resp \<and> status_error resp = Some e"
    from download_app_status_fails[of env url resp e fs app_name dir sp] a d
    show "p = None \<and> msg = cn_download_failed @ exc_text e" by simp
  qed
  have 5: "\<forall>resp e. http_get env url = Inr resp \<and> status_error resp = None \<and>
        total_size_of env resp = Inl e \<longrightarrow> p = None \<and> msg = cn_download_failed @ exc_text e"
  proof (intro allI impI)
    fix resp e assume a: "http_get env url = Inr resp \<and> status_error resp = None \<and>
        total_size_of env resp = Inl e"
    from download_app_length_fails[of env url resp e fs app_name dir sp] a d
    show "p = None \<and> msg = cn_download_failed @ exc_text e" by simp
  qed
  have 6: "\<forall>resp n e. http_get env url = Inr resp \<and> status_error resp = None \<and>
        total_size_of env resp = Inr n \<and> open_wb env ?path = Some e \<longrightarrow>
        p = None \<and> msg = cn_download_failed @ exc_text e"
  proof (intro allI impI)
    fix resp n e assume a: "http_get env url = Inr resp \<and> status_error resp = None \<and>
        total_size_of env resp = Inr n \<and> open_wb env ?path = Some e"
    from download_app_open_fails[of env url resp n dir app_name e fs sp] a d
    show "p = None \<and> msg = cn_download_failed @ exc_text e" by simp
  qed
  have w: "\<forall>resp n k e. http_get env url = Inr resp \<and> status_error resp = None \<and>
        total_size_of env resp = Inr n \<and> open_wb env ?path = None \<and>
        k < length (body_chunks resp) \<and> write_fails env k = Some e \<and>
        (\<forall>j<k. write_fails env j = None) \<longrightarrow>
        p = None \<and> msg = cn_download_failed @ exc_text e"
  proof (intro allI impI)
    fix resp n k e assume a: "http_get env url = Inr resp \<and> status_error resp = None \<and>
        total_size_of env resp = Inr n \<and> open_wb env ?path = None \<and>
        k < length (body_chunks resp) \<and> write_fails env k = Some e \<and>
        (\<forall>j<k. write_fails env j = None)"
    from download_app_write_fails[of env url resp n dir app_name k e fs sp] a d
    show "p = None \<and> msg = cn_download_failed @ exc_text e" by simp
  qed
  have 7: "\<forall>resp n e. http_get env url = Inr resp \<and> status_error resp = None \<and>
        total_size_of env resp = Inr n \<and> open_wb env ?path = None \<and>
        (\<forall>k. write_fails env k = None) \<and> body_error resp = Some e \<longrightarrow>
        p = None \<and> msg = cn_download_failed @ exc_text e"
  proof (intro allI impI)
    fix resp n e assume a: "http_get env url = Inr resp \<and> status_error resp = None \<and>
        total_size_of env resp = Inr n \<and> open_wb env ?path = None \<and>
        (\<forall>k. write_fails env k = None) \<and> body_error resp = Some e"
    from download_app_stream_fails[of env url resp n dir app_name e fs sp] a d
    show "p = None \<and> msg = cn_download_failed @ exc_text e" by simp
  qed
  have 8: "\<forall>resp n. http_get env url = Inr resp \<and> status_error resp = None \<and>
        total_size_of env resp = Inr n \<and> open_wb env ?path = None \<and>
        (\<forall>k. write_fails env k = None) \<and> body_error resp = None \<longrightarrow>
        p = Some ?path \<and> msg = cn_download_ok \<and> fs' ?path = Some (concat (body_chunks resp))"
  proof (intro allI impI)
    fix resp n assume a: "http_get env url = Inr resp \<and> status_error resp = None \<and>
        total_size_of env resp = Inr n \<and> open_wb env ?path = None \<and>
        (\<forall>k. write_fails env k = None) \<and> body_error resp = None"
    from download_app_succeeds[of env url resp n dir app_name fs sp] a d
    show "p = Some ?path \<and> msg = cn_download_ok \<and> fs' ?path = Some (concat (body_chunks resp))"
      by auto
  qed
  show ?thesis
    apply (rule exI[of _ p], rule exI[of _ msg], rule exI[of _ fs'])
    using d 1 2 3 4 5 6 w 7 8 by (intro conjI)
qed


theorem download_app_never_raises_witness:
  "http_get (demo_io\<lparr>http_get := \<lambda>u. Inr (demo_response [''PK'', ''xy''])\<rparr>) (ascii ''http://h/a'')
     = Inr (demo_response [''PK'', ''xy'']) \<and>
   fst (download_app (demo_io\<lparr>http_get := \<lambda>u. Inr (demo_response [''PK'', ''xy''])\<rparr>) Map.empty
          (ascii ''a'') (ascii ''http://h/a'') (ascii ''/d'') True)
     = Inr (Some (ascii ''/d/a.apk''), cn_download_ok) \<and>
   snd (download_app (demo_io\<lparr>http_get := \<lambda>u. Inr (demo_response [''PK'', ''xy''])\<rparr>) Map.empty
          (ascii ''a'') (ascii ''http://h/a'') (ascii ''/d'') True) (ascii ''/d/a.apk'')
     = Some ''PKxy'' \<and>
   http_get demo_io (ascii ''http://h/a'') = Inl (PyExc OtherException (ascii ''connection refused'')) \<and>
   fst (download_app demo_io Map.empty (ascii ''a'') (ascii ''http://h/a'') (ascii ''/d'') True)
     = Inr (None, cn_download_failed @ ascii ''connection refused'')"
proof -
  let ?env = "demo_io\<lparr>http_get := \<lambda>u. Inr (demo_response [''PK'', ''xy''])\<rparr>"
  let ?resp = "demo_response [''PK'', ''xy'']"
  have path: "apk_file_path (ascii ''/d'') (ascii ''a'') = ascii ''/d/a.apk''"
    by (simp add: apk_file_path_def os_path_join_def ascii_def suffix_to_prefix)
  have h1: "http_get ?env (ascii ''http://h/a'') = Inr ?resp" by simp
  have h: "http_get ?env (ascii ''http://h/a'') = Inr ?resp \<and> status_error ?resp = None \<and>
        total_size_of ?env ?resp = Inr 0 \<and> open_wb ?env (apk_file_path (ascii ''/d'') (ascii ''a'')) = None \<and>
        (\<forall>k. write_fails ?env k = None) \<and> body_error ?resp = None"
    by (simp add: demo_io_def demo_response_def total_size_of_def)
  from download_app_never_raises[of ?env Map.empty "ascii ''a''" "ascii ''http://h/a''" "ascii ''/d''" True]
  obtain p msg fs' where
    d: "download_app ?env Map.empty (ascii ''a'') (ascii ''http://h/a'') (ascii ''/d'') True = (Inr (p, msg), fs')" and
    ok: "\<forall>resp n. http_get ?env (ascii ''http://h/a'') = Inr resp \<and> status_error resp = None \<and>
        total_size_of ?env resp = Inr n \<and> open_wb ?env (apk_file_path (ascii ''/d'') (ascii ''a'')) = None \<and>
        (\<forall>k. write_fails ?env k = None) \<and> body_error resp = None \<longrightarrow>
        p = Some (apk_file_path (ascii ''/d'') (ascii ''a'')) \<and> msg = cn_download_ok \<and>
        fs' (apk_file_path (ascii ''/d'') (ascii ''a'')) = Some (concat (body_chunks resp))"
    by (elim exE conjE) (rule that, assumption+)
  from ok[rule_format, OF h] have "p = Some (ascii ''/d/a.apk'') \<and> msg = cn_download_ok \<and>
      fs' (ascii ''/d/a.apk'') = Some (concat (body_chunks ?resp))"
    unfolding path .
  with d have a: "fst (download_app ?env Map.empty (ascii ''a'') (ascii ''http://h/a'') (ascii ''/d'') True)
     = Inr (Some (ascii ''/d/a.apk''), cn_download_ok)"
    and b: "snd (download_app ?env Map.empty (ascii ''a'') (ascii ''http://h/a'') (ascii ''/d'') True) (ascii ''/d/a.apk'')
     = Some ''PKxy''"
    by (simp_all add: demo_response_def)
  have g: "http_get demo_io (ascii ''http://h/a'') = Inl (PyExc OtherException (ascii ''connection refused''))"
    by (simp add: demo_io_def)
  from download_app_never_raises[of demo_io Map.empty "ascii ''a''" "ascii ''http://h/a''" "ascii ''/d''" True]
  obtain p' msg' fs'' where
    d': "download_app demo_io Map.empty (ascii ''a'') (ascii ''http://h/a'') (ascii ''/d'') True
           = (Inr (p', msg'), fs'')" and
    refused: "\<forall>e. http_get demo_io (ascii ''http://h/a'') = Inl e \<longrightarrow>
        p' = None \<and> msg' = cn_download_failed @ exc_text e"
    by (elim exE conjE) (rule that, assumption+)
  from refused[rule_format, OF g] d'
  have c: "fst (download_app demo_io Map.empty (ascii ''a'') (ascii ''http://h/a'') (ascii ''/d'') True)
     = Inr (None, cn_download_failed @ ascii ''connection refused'')"
    by simp
  from h1 a b g c show ?thesis by (intro conjI)
qed

section \<open>The installer\<close>











section \<open>Steps of a task\<close>

lemma guarded_ok: "raised l = None \<Longrightarrow> guarded f (l, s) = f (l, s)"
  by (simp add: guarded_def)

lemma guarded_dead: "raised l = Some e \<Longrightarrow> guarded f (l, s) = (l, s)"
  by (simp add: guarded_def)


lemma run_update_steps:
  assumes "raised l = None"
    and "\<And>df. u (l\<lparr>df_read := df\<rparr>) = u l" "\<And>df. d (l\<lparr>df_read := df\<rparr>) = d l"
        "\<And>df. i (l\<lparr>df_read := df\<rparr>) = i l"
  shows "run_steps (update_excel_status_steps xl n u d i) (l, s) =
     (case read_excel xl (ledger s) of
        Inl e \<Rightarrow> (l\<lparr>raised := Some e\<rparr>, log_call (UpsertCall n (u l) (d l) (i l)) s)
      | Inr df \<Rightarrow>
          (case update_excel_status xl (ledger s) n (u l) (d l) (i l) of
             Inl e \<Rightarrow> (l\<lparr>df_read := df, raised := Some e\<rparr>, log_call (UpsertCall n (u l) (d l) (i l)) s)
           | Inr sheet \<Rightarrow>
               (l\<lparr>df_read := df\<rparr>, (log_call (UpsertCall n (u l) (d l) (i l)) s)\<lparr>ledger := sheet\<rparr>)))"
  using assms
  by (simp add: update_excel_status_steps_def update_excel_status_def guarded_def log_call_def
      split: sum.splits)

lemma good_download:
  "download_app good_net_io fs n u d sp =
     (Inr (Some (apk_file_path d n), cn_download_ok), fs(apk_file_path d n \<mapsto> ''PK''))"
  by (simp add: download_app_def download_app_try_def good_net_io_def demo_io_def
      demo_response_def total_size_of_def Let_def)

lemma success_in_download_ok: "sublist cn_success cn_download_ok"
  by (simp add: cn_success_def cn_download_ok_def sublist_code)

lemma download_step_good:
  "raised l = None \<Longrightarrow>
   download_step good_net_io n u d (l, s) =
     (l\<lparr>apk_path := Some (apk_file_path d n), download_status := cn_download_ok\<rparr>,
      log_call (DownloadCall n u d) (s\<lparr>files := (files s)(apk_file_path d n \<mapsto> ''PK'')\<rparr>))"
  by (simp add: download_step_def guarded_def good_download)

lemma load_counter_Some:
  "raised l = None \<Longrightarrow> pick l = Some c \<Longrightarrow>
   load_counter pick (l, s) = (l\<lparr>loaded := get_counter c s\<rparr>, s)"
  by (simp add: load_counter_def guarded_def)

lemma store_counter_Some:
  "raised l = None \<Longrightarrow> pick l = Some c \<Longrightarrow>
   store_counter pick (l, s) = (l, set_counter c (loaded l + 1) s)"
  by (simp add: store_counter_def guarded_def)

lemma demo_ledger: "ledger (reset_counters demo_state) =
    Some [pending_row ''a'' ''http://h/a'', pending_row ''b'' ''http://h/b'']"
  by (simp add: demo_state_def reset_counters_def)

lemma pending_row_sel:
  "col_name (pending_row n u) = ascii n" "col_url (pending_row n u) = ascii u"
  by (simp_all add: pending_row_def new_row_def)

lemma demo_update_a:
  "update_excel_status demo_excel
     (Some [pending_row ''a'' ''http://h/a'', pending_row ''b'' ''http://h/b''])
     (ascii ''a'') u d i =
   Inr (Some [set_status (pending_row ''a'' ''http://h/a'') d i, pending_row ''b'' ''http://h/b''])"
  by (simp add: update_excel_status_def read_demo_excel to_demo_excel upsert_frame_def
      names_of_def matching_index_def pending_row_sel ascii_def upt_rec)

lemma demo_update_b:
  "col_name ra = ascii ''a'' \<Longrightarrow>
   update_excel_status demo_excel (Some [ra, pending_row ''b'' ''http://h/b'']) (ascii ''b'') u d i =
   Inr (Some [ra, set_status (pending_row ''b'' ''http://h/b'') d i])"
  by (simp add: update_excel_status_def read_demo_excel to_demo_excel upsert_frame_def
      names_of_def matching_index_def pending_row_sel ascii_def upt_rec)

lemma set_status_name: "col_name (set_status r d i) = col_name r"
  by (simp add: set_status_def)

lemma run_steps_keeps:
  assumes "\<And>f st. f \<in> set fs \<Longrightarrow> g (snd (f st)) = g (snd st)"
  shows "g (snd (run_steps fs st)) = g (snd st)"
  using assms
proof (induction fs arbitrary: st)
  case Nil
  show ?case by simp
next
  case (Cons f fs)
  have "g (snd (run_steps fs (f st))) = g (snd (f st))"
    by (rule Cons.IH) (simp add: Cons.prems)
  also have "\<dots> = g (snd st)" by (simp add: Cons.prems)
  finally show ?case by simp
qed

lemma drain_keeps:
  assumes "\<And>t f st. t \<in> set ts \<Longrightarrow> f \<in> set (todo t) \<Longrightarrow> g (snd (f st)) = g (snd st)"
  shows "g (snd (drain ts s)) = g s"
  using assms
proof (induction ts arbitrary: s)
  case Nil
  show ?case by simp
next
  case (Cons t ts)
  obtain l' s' where r: "run_steps (todo t) (locals t, s) = (l', s')"
    by (cases "run_steps (todo t) (locals t, s)")
  have "g (snd (run_steps (todo t) (locals t, s))) = g (snd (locals t, s))"
    by (rule run_steps_keeps) (rule Cons.prems[of t], simp_all)
  with r have 1: "g s' = g s" by simp
  have 2: "g (snd (drain ts s')) = g s'"
  proof (rule Cons.IH)
    fix t' f st assume "t' \<in> set ts" "f \<in> set (todo t')"
    then show "g (snd (f st)) = g (snd st)" using Cons.prems[of t' f st] by simp
  qed
  from r 1 2 show ?case by (cases "drain ts s'") simp
qed

lemma run_pool_keeps:
  assumes "\<And>t f st. t \<in> set ts \<Longrightarrow> f \<in> set (todo t) \<Longrightarrow> g (snd (f st)) = g (snd st)"
  shows "g (snd (run_pool sched ts s)) = g s"
  using assms
proof (induction sched arbitrary: ts s)
  case Nil
  then show ?case by (simp add: drain_keeps)
next
  case (Cons i sched)
  show ?case
  proof (cases "runnable ts i")
    case False
    then show ?thesis using Cons by simp
  next
    case True
    then have i: "i < length ts" and ne: "todo (ts ! i) \<noteq> []" by (simp_all add: runnable_def)
    then obtain f fs where td: "todo (ts ! i) = f # fs" by (cases "todo (ts ! i)") auto
    obtain l' s' where fr: "f (locals (ts ! i), s) = (l', s')"
      by (cases "f (locals (ts ! i), s)")
    let ?t' = "(ts ! i)\<lparr>started := True, locals := l', todo := fs\<rparr>"
    have eh: "exec_head (ts ! i) s = (?t', s')" by (simp add: exec_head_def td fr)
    have mem: "ts ! i \<in> set ts" using i by simp
    have 1: "g s' = g s"
      using Cons.prems[OF mem, of f "(locals (ts ! i), s)"] td fr by simp
    have 2: "g (snd (run_pool sched (ts[i := ?t']) s')) = g s'"
    proof (rule Cons.IH)
      fix t f' st assume t: "t \<in> set (ts[i := ?t'])" and f': "f' \<in> set (todo t)"
      from t have "t = ?t' \<or> t \<in> set ts" using set_update_subset_insert[of ts i ?t'] by auto
      then show "g (snd (f' st)) = g (snd st)"
      proof
        assume "t = ?t'"
        with f' td have "f' \<in> set (todo (ts ! i))" by simp
        then show ?thesis by (rule Cons.prems[OF mem])
      next
        assume "t \<in> set ts"
        then show ?thesis using f' by (rule Cons.prems)
      qed
    qed
    from True eh 1 2 show ?thesis by simp
  qed
qed

lemma run_sequential_keeps:
  assumes "\<And>steps f st. steps \<in> set tasks \<Longrightarrow> f \<in> set steps \<Longrightarrow> g (snd (f st)) = g (snd st)"
  shows "g (snd (run_sequential tasks s)) = g s"
  using assms
proof (induction tasks arbitrary: s)
  case Nil
  show ?case by simp
next
  case (Cons steps rest)
  obtain l' s' where r: "run_steps steps (init_local, s) = (l', s')"
    by (cases "run_steps steps (init_local, s)")
  have "g (snd (run_steps steps (init_local, s))) = g (snd (init_local, s))"
    by (rule run_steps_keeps) (rule Cons.prems[of steps], simp_all)
  with r have 1: "g s' = g s" by simp
  have 2: "g (snd (run_sequential rest s')) = g s'"
  proof (rule Cons.IH)
    fix steps' f st assume "steps' \<in> set rest" "f \<in> set steps'"
    then show "g (snd (f st)) = g (snd st)" using Cons.prems[of steps' f st] by simp
  qed
  from r 1 2 show ?case by (simp split: option.splits)
qed

lemma run_tasks_keeps:
  assumes "\<And>steps f st. steps \<in> set tasks \<Longrightarrow> f \<in> set steps \<Longrightarrow> g (snd (f st)) = g (snd st)"
  shows "g (snd (run_tasks in_parallel sched tasks s)) = g s"
proof (cases in_parallel)
  case False
  then show ?thesis using run_sequential_keeps[of tasks g s] assms by (simp add: run_tasks_def)
next
  case True
  have "g (snd (run_pool sched (map new_task tasks) s)) = g s"
  proof (rule run_pool_keeps)
    fix t f st assume "t \<in> set (map new_task tasks)" "f \<in> set (todo t)"
    then obtain steps where "steps \<in> set tasks" "f \<in> set steps"
      by (auto simp: new_task_def)
    then show "g (snd (f st)) = g (snd st)" by (rule assms)
  qed
  with True show ?thesis
    by (cases "run_pool sched (map new_task tasks) s") (simp add: run_tasks_def run_parallel_def)
qed

lemma set_counter_calls: "calls (set_counter c n s) = calls s"
  by (cases c) simp_all




lemma demo_state_sel:
  "calls demo_state = []"
  "ledger demo_state = Some [pending_row ''a'' ''http://h/a'', pending_row ''b'' ''http://h/b'']"
  by (simp_all add: demo_state_def)

section \<open>The counters of a batch\<close>

lemma lost_update_pool:
  "run_pool [0, 1, 0, 1, 0, 1]
     [new_task ([download_step good_net_io n0 u0 d] @ increment download_counter @ rest0),
      new_task ([download_step good_net_io n1 u1 d] @ increment download_counter @ rest1)] s =
   run_pool []
     [\<lparr>started = True,
       locals = init_local\<lparr>apk_path := Some (apk_file_path d n0), download_status := cn_download_ok,
                  loaded := download_success s\<rparr>,
       todo = rest0\<rparr>,
      \<lparr>started = True,
       locals = init_local\<lparr>apk_path := Some (apk_file_path d n1), download_status := cn_download_ok,
                  loaded := download_success s\<rparr>,
       todo = rest1\<rparr>]
     (s\<lparr>files := (files s)(apk_file_path d n0 \<mapsto> ''PK'', apk_file_path d n1 \<mapsto> ''PK''),
        calls := calls s @ [DownloadCall n0 u0 d, DownloadCall n1 u1 d],
        download_success := download_success s + 1\<rparr>)"
  by (simp add: runnable_def exec_head_def running_def max_workers_def new_task_def
      increment_def download_step_good load_counter_Some store_counter_Some
      download_counter_def success_in_download_ok init_local_def log_call_def)

text \<open>
  C2 fails in the parallel mode. The ledger has two rows and both downloads succeed. The
  two tasks run in turn, one step each: both read \<open>download_success\<close> (zero) before
  either writes it back, so both write one. The batch ends without an exception and
  reports one success and no failure for a total of two.
\<close>

theorem download_apps_lost_update:
  "fst (download_apps demo_excel (\<lambda>i. good_net_io) [0, 1, 0, 1, 0, 1] None (ascii ''/d'') True
          demo_state) = Inr [DownloadReport 1 0 2]"
proof -
  let ?ra = "pending_row ''a'' ''http://h/a''"
  let ?rb = "pending_row ''b'' ''http://h/b''"
  let ?d = "ascii ''/d''"
  let ?resta = "update_excel_status_steps demo_excel (ascii ''a'') (\<lambda>l. ascii ''http://h/a'')
                  download_status (\<lambda>l. cn_not_installed)"
  let ?restb = "update_excel_status_steps demo_excel (ascii ''b'') (\<lambda>l. ascii ''http://h/b'')
                  download_status (\<lambda>l. cn_not_installed)"
  let ?s0 = "reset_counters demo_state"
  have nn: "ledger demo_state \<noteq> None" by (simp add: demo_state_def)
  have rd: "read_excel demo_excel (ledger demo_state) = Inr [?ra, ?rb]"
    by (simp add: demo_state_def read_demo_excel)
  have tasks: "map new_task (map (\<lambda>(index, r). process_app_download demo_excel good_net_io ?d index r)
                  (enumerate 0 [?ra, ?rb])) =
      [new_task ([download_step good_net_io (ascii ''a'') (ascii ''http://h/a'') ?d] @
                 increment download_counter @ ?resta),
       new_task ([download_step good_net_io (ascii ''b'') (ascii ''http://h/b'') ?d] @
                 increment download_counter @ ?restb)]"
    by (simp add: process_app_download_def Let_def pending_row_sel)
  have pool: "run_pool [0, 1, 0, 1, 0, 1]
      (map new_task (map (\<lambda>(index, r). process_app_download demo_excel good_net_io ?d index r)
                  (enumerate 0 [?ra, ?rb]))) ?s0 =
      drain
     [\<lparr>started = True,
       locals = init_local\<lparr>apk_path := Some (apk_file_path ?d (ascii ''a'')), download_status := cn_download_ok,
                  loaded := download_success ?s0\<rparr>,
       todo = ?resta\<rparr>,
      \<lparr>started = True,
       locals = init_local\<lparr>apk_path := Some (apk_file_path ?d (ascii ''b'')), download_status := cn_download_ok,
                  loaded := download_success ?s0\<rparr>,
       todo = ?restb\<rparr>]
     (?s0\<lparr>files := (files ?s0)(apk_file_path ?d (ascii ''a'') \<mapsto> ''PK'', apk_file_path ?d (ascii ''b'') \<mapsto> ''PK''),
        calls := calls ?s0 @ [DownloadCall (ascii ''a'') (ascii ''http://h/a'') ?d,
                              DownloadCall (ascii ''b'') (ascii ''http://h/b'') ?d],
        download_success := download_success ?s0 + 1\<rparr>)"
    unfolding tasks lost_update_pool by simp
  have fin: "run_parallel [0, 1, 0, 1, 0, 1]
      (map (\<lambda>(index, r). process_app_download demo_excel good_net_io ?d index r)
                  (enumerate 0 [?ra, ?rb])) ?s0 = (None, s') \<Longrightarrow>
      download_success s' = 1 \<and> download_failure s' = 0" for s'
    unfolding run_parallel_def pool
    by (auto simp add: run_update_steps init_local_def demo_ledger demo_update_a demo_update_b
        read_demo_excel log_call_def set_status_name pending_row_sel first_raised_def
        List.map_filter_def reset_counters_def demo_state_def)
  have nr: "fst (run_parallel [0, 1, 0, 1, 0, 1]
      (map (\<lambda>(index, r). process_app_download demo_excel good_net_io ?d index r)
                  (enumerate 0 [?ra, ?rb])) ?s0) = None"
    unfolding run_parallel_def pool
    by (simp add: run_update_steps init_local_def demo_ledger demo_update_a demo_update_b
        read_demo_excel log_call_def set_status_name pending_row_sel first_raised_def
        List.map_filter_def)
  obtain s' where r: "run_parallel [0, 1, 0, 1, 0, 1]
      (map (\<lambda>(index, r). process_app_download demo_excel good_net_io ?d index r)
                  (enumerate 0 [?ra, ?rb])) ?s0 = (None, s')"
    using nr by (cases "run_parallel [0, 1, 0, 1, 0, 1]
      (map (\<lambda>(index, r). process_app_download demo_excel good_net_io ?d index r)
                  (enumerate 0 [?ra, ?rb])) ?s0") auto
  from fin[OF r] r show ?thesis
    by (simp add: download_apps_def nn rd run_tasks_def Let_def)
qed

section \<open>One entry of the download-and-install workflow\<close>













section \<open>An exception of the installer\<close>





section \<open>One package of the install-local workflow\<close>












section \<open>The download-only workflow\<close>

lemma download_step_bridge:
  "bridge_calls (snd (download_step env n u d st)) = bridge_calls (snd st)"
  by (cases st)
     (simp add: download_step_def guarded_def bridge_calls_def log_call_def
         split: prod.splits sum.splits)

lemma load_counter_bridge: "bridge_calls (snd (load_counter pick st)) = bridge_calls (snd st)"
  by (cases st) (simp add: load_counter_def guarded_def bridge_calls_def split: option.splits)

lemma store_counter_bridge: "bridge_calls (snd (store_counter pick st)) = bridge_calls (snd st)"
  by (cases st)
     (simp add: store_counter_def guarded_def bridge_calls_def set_counter_calls split: option.splits)

lemma update_steps_bridge:
  "f \<in> set (update_excel_status_steps xl n u d i) \<Longrightarrow>
     bridge_calls (snd (f st)) = bridge_calls (snd st)"
  by (cases st)
     (auto simp add: update_excel_status_steps_def guarded_def bridge_calls_def log_call_def
         split: sum.splits)

lemma process_app_download_bridge:
  "f \<in> set (process_app_download xl env d index r) \<Longrightarrow>
     bridge_calls (snd (f st)) = bridge_calls (snd st)"
  by (auto simp add: process_app_download_def Let_def increment_def download_step_bridge
      load_counter_bridge store_counter_bridge update_steps_bridge)

text \<open>
  C9. \<open>download_apps\<close> does not use its device argument: with any two values of it, the
  same environment, schedule and state give the same result, that is the same report
  or exception, the same package files, the same ledger and the same calls in the same
  order. In every run the calls it adds are downloads and ledger updates: the calls
  that list the devices or install a package are those made before. And the menu's
  first entry is \<open>download_apps\<close> with \<open>None\<close> for the device, with no device located
  first.
\<close>

theorem download_apps_ignores_device:
  "download_apps xl envs sched device_id download_dir in_parallel s =
     download_apps xl envs sched device_id' download_dir in_parallel s \<and>
   filter locates_or_installs (calls (snd (download_apps xl envs sched device_id download_dir in_parallel s)))
     = filter locates_or_installs (calls s) \<and>
   (lower env (strip entered) = ascii ''1'' \<longrightarrow>
      menu_choice xl env envs sched entered download_dir listing typed s =
        download_apps xl envs sched None download_dir True s)"
proof -
  have k: "bridge_calls (snd (run_tasks in_parallel sched
        (map (\<lambda>(index, r). process_app_download xl (envs index) download_dir index r) (enumerate 0 df))
        (reset_counters s))) = bridge_calls (reset_counters s)" for df
    by (rule run_tasks_keeps) (auto simp: process_app_download_bridge)
  have r: "bridge_calls (reset_counters s) = bridge_calls s"
    by (simp add: bridge_calls_def reset_counters_def)
  have "bridge_calls (snd (download_apps xl envs sched device_id download_dir in_parallel s))
      = bridge_calls s"
  proof (cases "ledger s = None")
    case True
    then show ?thesis by (simp add: download_apps_def)
  next
    case False
    show ?thesis
    proof (cases "read_excel xl (ledger s)")
      case (Inl e)
      with False show ?thesis by (simp add: download_apps_def)
    next
      case (Inr df)
      obtain e' s' where rt: "run_tasks in_parallel sched
          (map (\<lambda>(index, r). process_app_download xl (envs index) download_dir index r)
             (enumerate 0 df)) (reset_counters s) = (e', s')"
        by (cases "run_tasks in_parallel sched
          (map (\<lambda>(index, r). process_app_download xl (envs index) download_dir index r)
             (enumerate 0 df)) (reset_counters s)")
      from k[of df] rt r have "bridge_calls s' = bridge_calls s" by simp
      with False Inr rt show ?thesis
        by (simp add: download_apps_def Let_def split: option.splits)
    qed
  qed
  then show ?thesis by (simp add: bridge_calls_def download_apps_def menu_choice_def)
qed

theorem download_apps_ignores_device_witness:
  "lower demo_io (strip (ascii '' 1 '')) = ascii ''1'' \<and>
   menu_choice demo_excel demo_io (\<lambda>i. good_net_io) [0, 1] (ascii '' 1 '') (ascii ''/d'') [] []
       demo_state =
     download_apps demo_excel (\<lambda>i. good_net_io) [0, 1] None (ascii ''/d'') True demo_state \<and>
   download_apps demo_excel (\<lambda>i. good_net_io) [0, 1] None (ascii ''/d'') True demo_state =
     download_apps demo_excel (\<lambda>i. good_net_io) [0, 1] (Some (ascii ''emulator-5554'')) (ascii ''/d'')
       True demo_state \<and>
   filter locates_or_installs
     (calls (snd (menu_choice demo_excel demo_io (\<lambda>i. good_net_io) [0, 1] (ascii '' 1 '') (ascii ''/d'')
                    [] [] demo_state))) = []"
proof -
  have one: "lower demo_io (strip (ascii '' 1 '')) = ascii ''1''"
    by (simp add: demo_io_def strip_def ascii_def is_space_def)
  note inst = download_apps_ignores_device[where xl = demo_excel and envs = "\<lambda>i. good_net_io"
      and sched = "[0, 1]" and device_id = None and device_id' = "Some (ascii ''emulator-5554'')"
      and download_dir = "ascii ''/d''" and in_parallel = True and s = demo_state and env = demo_io
      and entered = "ascii '' 1 ''" and listing = "[]" and typed = "[]"]
  have same: "download_apps demo_excel (\<lambda>i. good_net_io) [0, 1] None (ascii ''/d'') True demo_state =
      download_apps demo_excel (\<lambda>i. good_net_io) [0, 1] (Some (ascii ''emulator-5554'')) (ascii ''/d'')
        True demo_state"
    using inst by (elim conjE)
  have none: "filter locates_or_installs
      (calls (snd (download_apps demo_excel (\<lambda>i. good_net_io) [0, 1] None (ascii ''/d'') True
                     demo_state))) = filter locates_or_installs (calls demo_state)"
    using inst by (elim conjE)
  have menu: "lower demo_io (strip (ascii '' 1 '')) = ascii ''1'' \<longrightarrow>
      menu_choice demo_excel demo_io (\<lambda>i. good_net_io) [0, 1] (ascii '' 1 '') (ascii ''/d'') [] []
          demo_state =
        download_apps demo_excel (\<lambda>i. good_net_io) [0, 1] None (ascii ''/d'') True demo_state"
    using inst by (elim conjE)
  from menu one have m: "menu_choice demo_excel demo_io (\<lambda>i. good_net_io) [0, 1] (ascii '' 1 '')
      (ascii ''/d'') [] [] demo_state =
        download_apps demo_excel (\<lambda>i. good_net_io) [0, 1] None (ascii ''/d'') True demo_state"
    by (rule mp)
  have f: "filter locates_or_installs
     (calls (snd (menu_choice demo_excel demo_io (\<lambda>i. good_net_io) [0, 1] (ascii '' 1 '') (ascii ''/d'')
                    [] [] demo_state))) = []"
    unfolding m none by (simp add: demo_state_sel)
  show ?thesis by (intro conjI one m same f)
qed

section \<open>Deleting the packages\<close>

lemma remove_each_state:
  "remove_each env dir apks s =
     s\<lparr>files := (\<lambda>q. if q \<in> os_path_join dir ` set apks \<and> remove_fails env q = None then None
                       else files s q),
       calls := calls s @ map (\<lambda>f. RemoveCall (os_path_join dir f)) apks\<rparr>"
proof (induction apks arbitrary: s)
  case Nil
  show ?case by simp
next
  case (Cons apk rest)
  show ?case
    by (cases "files s (os_path_join dir apk)"; cases "remove_fails env (os_path_join dir apk)")
       (auto simp: Cons.IH Let_def os_remove_def log_call_def fun_eq_iff intro!: shared.equality)
qed

lemma delete_all_apks_cases:
  "delete_all_apks env dir listing typed s =
     (if lower env (strip typed) = ascii ''y''
      then remove_each env dir (filter (\<lambda>f. suffix (ascii ''.apk'') f) listing) s else s)"
  by (simp add: delete_all_apks_def Let_def)

text \<open>
  C10. When the line the operator enters, stripped and lowercased, is not \<open>y\<close>,
  \<open>delete_all_apks\<close> leaves the state as it was: no file is removed and \<open>os.remove\<close> is
  not called. When it is \<open>y\<close>, \<open>os.remove\<close> is called once for each listed name that
  ends with \<open>.apk\<close>, in the order of the listing; each of these paths whose removal
  does not fail is no longer a file, and every other path is what it was.
\<close>

theorem delete_all_apks_confirmation:
  "(lower env (strip typed) \<noteq> ascii ''y'' \<longrightarrow> delete_all_apks env dir listing typed s = s) \<and>
   (lower env (strip typed) = ascii ''y'' \<longrightarrow>
      delete_all_apks env dir listing typed s =
        s\<lparr>files := (\<lambda>q. if q \<in> os_path_join dir ` set (filter (\<lambda>f. suffix (ascii ''.apk'') f) listing) \<and>
                             remove_fails env q = None
                          then None else files s q),
          calls := calls s @ map (\<lambda>f. RemoveCall (os_path_join dir f))
                               (filter (\<lambda>f. suffix (ascii ''.apk'') f) listing)\<rparr>)"
  by (simp add: delete_all_apks_cases remove_each_state)

theorem delete_all_apks_confirmation_witness:
  "lower demo_io (strip (ascii '' Y '')) = ascii ''y'' \<and>
   files (delete_all_apks demo_io (ascii ''/d'') [ascii ''a.apk'', ascii ''notes.txt'']
            (ascii '' Y '') demo_dir_state) (ascii ''/d/a.apk'') = None \<and>
   files (delete_all_apks demo_io (ascii ''/d'') [ascii ''a.apk'', ascii ''notes.txt'']
            (ascii '' Y '') demo_dir_state) (ascii ''/d/notes.txt'') = Some ''x'' \<and>
   calls (delete_all_apks demo_io (ascii ''/d'') [ascii ''a.apk'', ascii ''notes.txt'']
            (ascii '' Y '') demo_dir_state) = [RemoveCall (ascii ''/d/a.apk'')] \<and>
   lower demo_io (strip (ascii ''no'')) \<noteq> ascii ''y'' \<and>
   delete_all_apks demo_io (ascii ''/d'') [ascii ''a.apk'', ascii ''notes.txt'']
     (ascii ''no'') demo_dir_state = demo_dir_state"
proof -
  have y: "lower demo_io (strip (ascii '' Y '')) = ascii ''y''"
    by (simp add: demo_io_def strip_def ascii_def is_space_def)
  have n: "lower demo_io (strip (ascii ''no'')) \<noteq> ascii ''y''"
    by (simp add: demo_io_def strip_def ascii_def is_space_def)
  have apks: "filter (\<lambda>f. suffix (ascii ''.apk'') f) [ascii ''a.apk'', ascii ''notes.txt'']
      = [ascii ''a.apk'']"
    by (simp add: suffix_to_prefix ascii_def)
  have j: "os_path_join (ascii ''/d'') (ascii ''a.apk'') = ascii ''/d/a.apk''"
    by (simp add: os_path_join_def suffix_to_prefix ascii_def)
  have f: "files demo_dir_state (ascii ''/d/notes.txt'') = Some ''x''"
    "ascii ''/d/notes.txt'' \<noteq> ascii ''/d/a.apk''" "calls demo_dir_state = []"
    by (simp_all add: demo_dir_state_def demo_state_def ascii_def)
  have r: "remove_fails demo_io q = None" for q by (simp add: demo_io_def)
  from delete_all_apks_confirmation[of demo_io "ascii '' Y ''" "ascii ''/d''"
      "[ascii ''a.apk'', ascii ''notes.txt'']" demo_dir_state] y
  have 1: "delete_all_apks demo_io (ascii ''/d'') [ascii ''a.apk'', ascii ''notes.txt'']
            (ascii '' Y '') demo_dir_state =
        demo_dir_state\<lparr>files := (\<lambda>q. if q \<in> os_path_join (ascii ''/d'') ` set [ascii ''a.apk''] \<and>
                             remove_fails demo_io q = None
                          then None else files demo_dir_state q),
          calls := calls demo_dir_state @ map (\<lambda>f. RemoveCall (os_path_join (ascii ''/d'') f))
                               [ascii ''a.apk'']\<rparr>"
    unfolding apks by simp
  from delete_all_apks_confirmation[of demo_io "ascii ''no''" "ascii ''/d''"
      "[ascii ''a.apk'', ascii ''notes.txt'']" demo_dir_state] n
  have 2: "delete_all_apks demo_io (ascii ''/d'') [ascii ''a.apk'', ascii ''notes.txt'']
     (ascii ''no'') demo_dir_state = demo_dir_state" by simp
  show ?thesis
    unfolding 1 2 using y n by (simp add: j r f)
qed

end
